theory Spec2Isabelle
  imports
    Complex_Main
    "HOL-Library.Char_ord"
    "HOL-Library.List_Lexorder"
    "HOL-Library.Product_Lexorder"
    "HOL-Library.AList"
begin

chapter \<open>The RECALL core: a shallow embedding\<close>

text \<open>
  The Python sources under \<^verbatim>\<open>src/recall\<close> are embedded function by function.
  Conventions of the embedding:
  \<^item> Python \<^verbatim>\<open>int\<close> is \<^typ>\<open>int\<close>; Python \<^verbatim>\<open>float\<close> is idealised as \<^typ>\<open>real\<close>
    (no rounding, no NaN, no infinities).
  \<^item> A Python \<^verbatim>\<open>str\<close> is a \<^typ>\<open>string\<close>: the list of its code points, for the code
    points \<open>0..255\<close> that \<^typ>\<open>char\<close> has. The character classes below are the ones
    CPython assigns to these code points.
  \<^item> A \<^verbatim>\<open>dict\<close> that the code only reads and writes by key is a map
    \<open>'k \<rightharpoonup> 'v\<close>; a \<^verbatim>\<open>dict\<close> whose keys, values or items are iterated is an association
    list in insertion order (\<^const>\<open>AList.update\<close> keeps the position of a key that is
    already present and appends a new key, as a Python \<^verbatim>\<open>dict\<close> does).
  \<^item> A \<^verbatim>\<open>set\<close> of strings is a duplicate-free list; \<^verbatim>\<open>sorted(s)\<close> is \<^const>\<open>sort\<close> of
    it (lists of characters are ordered lexicographically by code point, as Python orders
    strings).
  \<^item> Mutation of an object is explicit state passing: a method takes the state and
    returns the new state beside its result.
\<close>

section \<open>Python characters and strings\<close>

definition cp :: "char \<Rightarrow> nat" where
  "cp c = of_char c"

definition isspace :: "char \<Rightarrow> bool" where
  \<comment> \<open>\<^verbatim>\<open>str.isspace\<close>, and the class \<^verbatim>\<open>\s\<close> of \<^verbatim>\<open>re\<close> on \<^verbatim>\<open>str\<close> patterns.\<close>
  "isspace c = ((9 \<le> cp c \<and> cp c \<le> 13) \<or> (28 \<le> cp c \<and> cp c \<le> 32) \<or> cp c = 133 \<or> cp c = 160)"

definition isdecimal :: "char \<Rightarrow> bool" where
  \<comment> \<open>The class \<^verbatim>\<open>\d\<close> of \<^verbatim>\<open>re\<close>: the decimal digits.\<close>
  "isdecimal c = (48 \<le> cp c \<and> cp c \<le> 57)"

definition isdigit :: "char \<Rightarrow> bool" where
  \<comment> \<open>\<^verbatim>\<open>str.isdigit\<close>: the decimal digits and the superscript digits.\<close>
  "isdigit c = (isdecimal c \<or> cp c = 178 \<or> cp c = 179 \<or> cp c = 185)"

definition isupper :: "char \<Rightarrow> bool" where
  "isupper c = ((65 \<le> cp c \<and> cp c \<le> 90) \<or> (192 \<le> cp c \<and> cp c \<le> 214) \<or> (216 \<le> cp c \<and> cp c \<le> 222))"

definition isalpha :: "char \<Rightarrow> bool" where
  "isalpha c = ((65 \<le> cp c \<and> cp c \<le> 90) \<or> (97 \<le> cp c \<and> cp c \<le> 122) \<or>
     cp c = 170 \<or> cp c = 181 \<or> cp c = 186 \<or>
     (192 \<le> cp c \<and> cp c \<le> 214) \<or> (216 \<le> cp c \<and> cp c \<le> 246) \<or> 248 \<le> cp c)"

definition isalnum :: "char \<Rightarrow> bool" where
  \<comment> \<open>\<^verbatim>\<open>str.isalnum\<close>: alphabetic, decimal, digit or numeric (the vulgar fractions).\<close>
  "isalnum c = (isalpha c \<or> isdigit c \<or> (188 \<le> cp c \<and> cp c \<le> 190))"

definition isword :: "char \<Rightarrow> bool" where
  \<comment> \<open>The class \<^verbatim>\<open>\w\<close> of \<^verbatim>\<open>re\<close>: alphanumeric or the underscore.\<close>
  "isword c = (isalnum c \<or> c = CHR ''_'')"

definition lower_char :: "char \<Rightarrow> char" where
  "lower_char c = (if isupper c then char_of (cp c + 32) else c)"

definition lower :: "string \<Rightarrow> string" where
  \<comment> \<open>\<^verbatim>\<open>str.lower\<close>\<close>
  "lower s = map lower_char s"

definition strip :: "string \<Rightarrow> string" where
  \<comment> \<open>\<^verbatim>\<open>str.strip\<close> with no argument: whitespace off both ends.\<close>
  "strip s = rev (dropWhile isspace (rev (dropWhile isspace s)))"

fun startswith :: "string \<Rightarrow> string \<Rightarrow> bool" where
  \<comment> \<open>\<^verbatim>\<open>s.startswith(p)\<close>\<close>
  "startswith s [] = True"
| "startswith [] (a # p) = False"
| "startswith (c # s) (a # p) = (c = a \<and> startswith s p)"

fun contains :: "string \<Rightarrow> string \<Rightarrow> bool" where
  \<comment> \<open>\<^verbatim>\<open>kw in s\<close> on strings: \<open>kw\<close> occurs in \<open>s\<close> as a substring.\<close>
  "contains [] kw = (kw = [])"
| "contains (c # s) kw = (startswith (c # s) kw \<or> contains s kw)"

section \<open>Regular expressions as the sources use them\<close>

text \<open>
  The fragment of \<^verbatim>\<open>re\<close> that the sources use, with the backtracking semantics of the
  library: a greedy repetition first takes as many characters as it can and gives them
  back one at a time; an optional group is tried before it is skipped. A matcher threads
  the character before the current position (\<open>None\<close> at the start of the string),
  which \<^verbatim>\<open>^\<close> and \<^verbatim>\<open>\b\<close> look at, and the rest of the string; it is written with a
  continuation, which is called on the first way of matching and decides whether the
  matcher has to try the next one.
\<close>

datatype cls =
    Lit char            \<comment> \<open>a literal character\<close>
  | AnyChar             \<comment> \<open>\<^verbatim>\<open>.\<close>: any character but the newline\<close>
  | Digit               \<comment> \<open>\<^verbatim>\<open>\d\<close>\<close>
  | WordChar            \<comment> \<open>\<^verbatim>\<open>\w\<close>\<close>
  | Space               \<comment> \<open>\<^verbatim>\<open>\s\<close>\<close>
  | Range char char     \<comment> \<open>\<^verbatim>\<open>a-b\<close> inside brackets\<close>
  | OneOf "cls list"    \<comment> \<open>\<^verbatim>\<open>[...]\<close>\<close>

fun cls_match :: "cls \<Rightarrow> char \<Rightarrow> bool" where
  "cls_match (Lit a) c = (c = a)"
| "cls_match AnyChar c = (c \<noteq> CHR 0x0A)"
| "cls_match Digit c = isdecimal c"
| "cls_match WordChar c = isword c"
| "cls_match Space c = isspace c"
| "cls_match (Range a b) c = (cp a \<le> cp c \<and> cp c \<le> cp b)"
| "cls_match (OneOf cs) c = (\<exists>x \<in> set cs. cls_match x c)"

datatype rx =
    One cls                     \<comment> \<open>one character of a class\<close>
  | Rep cls nat "nat option"    \<comment> \<open>greedy \<^verbatim>\<open>{lo,hi}\<close> of a class; \<^verbatim>\<open>+\<close> is \<open>Rep c 1 None\<close>\<close>
  | Then rx rx                  \<comment> \<open>concatenation\<close>
  | Opt rx                      \<comment> \<open>\<^verbatim>\<open>(?:r)?\<close>\<close>
  | Bol                         \<comment> \<open>\<^verbatim>\<open>^\<close> (no MULTILINE flag)\<close>
  | Eol                         \<comment> \<open>\<^verbatim>\<open>$\<close>: the end, or just before a final newline\<close>
  | WordB                       \<comment> \<open>\<^verbatim>\<open>\b\<close>\<close>
  | Eps                         \<comment> \<open>the empty pattern\<close>

definition seq :: "rx list \<Rightarrow> rx" where
  "seq rs = foldr Then rs Eps"

definition wordp :: "char option \<Rightarrow> bool" where
  \<comment> \<open>Is there a word character at this side of a position? (None: the string ends here.)\<close>
  "wordp p = (case p of None \<Rightarrow> False | Some c \<Rightarrow> isword c)"

definition first_char :: "string \<Rightarrow> char option" where
  "first_char s = (case s of [] \<Rightarrow> None | c # _ \<Rightarrow> Some c)"

fun rep_k :: "cls \<Rightarrow> nat \<Rightarrow> nat option \<Rightarrow> (char option \<Rightarrow> string \<Rightarrow> 'a option)
    \<Rightarrow> char option \<Rightarrow> string \<Rightarrow> 'a option" where
  "rep_k P lo hi k p [] = (if lo = 0 then k p [] else None)"
| "rep_k P lo hi k p (c # s) =
     (if cls_match P c \<and> hi \<noteq> Some 0 then
        (case rep_k P (lo - 1) (map_option (\<lambda>h. h - 1) hi) k (Some c) s of
           Some r \<Rightarrow> Some r
         | None \<Rightarrow> if lo = 0 then k p (c # s) else None)
      else if lo = 0 then k p (c # s) else None)"

fun rx_m :: "rx \<Rightarrow> (char option \<Rightarrow> string \<Rightarrow> 'a option) \<Rightarrow> char option \<Rightarrow> string \<Rightarrow> 'a option" where
  "rx_m (One P) k p s = (case s of [] \<Rightarrow> None | c # s' \<Rightarrow> if cls_match P c then k (Some c) s' else None)"
| "rx_m (Rep P lo hi) k p s = rep_k P lo hi k p s"
| "rx_m (Then r1 r2) k p s = rx_m r1 (\<lambda>p' s'. rx_m r2 k p' s') p s"
| "rx_m (Opt r) k p s = (case rx_m r k p s of Some x \<Rightarrow> Some x | None \<Rightarrow> k p s)"
| "rx_m Bol k p s = (if p = None then k p s else None)"
| "rx_m Eol k p s = (if s = [] \<or> s = [CHR 0x0A] then k p s else None)"
| "rx_m WordB k p s = (if wordp p \<noteq> wordp (first_char s) then k p s else None)"
| "rx_m Eps k p s = k p s"

definition match_len :: "rx \<Rightarrow> char option \<Rightarrow> string \<Rightarrow> nat option" where
  \<comment> \<open>The length of the match of \<open>r\<close> that starts at this position, if there is one.\<close>
  "match_len r p s = rx_m r (\<lambda>_ rest. Some (length s - length rest)) p s"

definition rx_match :: "rx \<Rightarrow> string \<Rightarrow> bool" where
  \<comment> \<open>\<^verbatim>\<open>re.match(r, s)\<close> as a truth value: a match at the start of \<open>s\<close>.\<close>
  "rx_match r s = (match_len r None s \<noteq> None)"

fun search_from :: "rx \<Rightarrow> char option \<Rightarrow> string \<Rightarrow> bool" where
  "search_from r p [] = (match_len r p [] \<noteq> None)"
| "search_from r p (c # s) = (match_len r p (c # s) \<noteq> None \<or> search_from r (Some c) s)"

definition rx_search :: "rx \<Rightarrow> string \<Rightarrow> bool" where
  \<comment> \<open>\<^verbatim>\<open>r.search(s)\<close> as a truth value: a match at some position of \<open>s\<close>.\<close>
  "rx_search r s = search_from r None s"

text \<open>
  \<^verbatim>\<open>re.sub\<close> and \<^verbatim>\<open>re.split\<close> scan from left to right and take the first match at the
  leftmost position. The number argument counts the characters of the current match that
  are still to be skipped. The patterns that the sources substitute or split on
  (\<^verbatim>\<open>\s+\<close>, \<^verbatim>\<open>\b0x[0-9a-f]+\b\<close>, \<^verbatim>\<open>\b\d+\b\<close>) match at least one character, so Python's
  rule for empty matches never applies and an empty match counts as no match here.
\<close>

fun sub_go :: "rx \<Rightarrow> string \<Rightarrow> nat \<Rightarrow> char option \<Rightarrow> string \<Rightarrow> string" where
  "sub_go r repl n p [] = []"
| "sub_go r repl (Suc n) p (c # s) = sub_go r repl n (Some c) s"
| "sub_go r repl 0 p (c # s) =
     (case match_len r p (c # s) of
        Some (Suc n) \<Rightarrow> repl @ sub_go r repl n (Some c) s
      | _ \<Rightarrow> c # sub_go r repl 0 (Some c) s)"

definition rx_sub :: "rx \<Rightarrow> string \<Rightarrow> string \<Rightarrow> string" where
  \<comment> \<open>\<^verbatim>\<open>re.sub(r, repl, s)\<close>\<close>
  "rx_sub r repl s = sub_go r repl 0 None s"

fun split_go :: "rx \<Rightarrow> string \<Rightarrow> nat \<Rightarrow> char option \<Rightarrow> string \<Rightarrow> string list" where
  "split_go r cur n p [] = [rev cur]"
| "split_go r cur (Suc n) p (c # s) = split_go r cur n (Some c) s"
| "split_go r cur 0 p (c # s) =
     (case match_len r p (c # s) of
        Some (Suc n) \<Rightarrow> rev cur # split_go r [] n (Some c) s
      | _ \<Rightarrow> split_go r (c # cur) 0 (Some c) s)"

definition rx_split :: "rx \<Rightarrow> string \<Rightarrow> string list" where
  \<comment> \<open>\<^verbatim>\<open>r.split(s)\<close>\<close>
  "rx_split r s = split_go r [] 0 None s"

definition match_group :: "rx \<Rightarrow> rx \<Rightarrow> string \<Rightarrow> string option" where
  \<comment> \<open>\<^verbatim>\<open>re.match\<close> of the pattern \<^verbatim>\<open>(g)r\<close>: the text of the group \<open>g\<close> if the pattern
      matches at the start of \<open>s\<close>.\<close>
  "match_group g r s =
     rx_m g (\<lambda>p rest. rx_m r (\<lambda>_ _. Some (take (length s - length rest) s)) p rest) None s"

section \<open>config.py\<close>

text \<open>
  The options of \<^verbatim>\<open>RecallConfig\<close> that the core reads. The names of the language-model
  backends, endpoints and model paths are left out: they configure the external
  collaborators only.
\<close>

record RecallConfig =
  theta_tc :: int
  theta_rf :: int
  delta_t_sec :: int
  min_token_len :: int
  graph_window_t_sec :: int
  decay_lambda :: "real option"
  theta_w :: real
  activity_beta :: real
  activity_alpha :: real
  activity_epsilon :: real
  temporal_k :: int
  evidence_budget_nmax :: int
  degree_threshold_dmax :: int
  score_a :: real
  score_b :: real
  score_c :: real
  dedup_case_insensitive :: bool
  enable_severity_trigger :: bool
  enable_burst_trigger :: bool
  burst_sigma :: real
  burst_window_sec :: int
  burst_ema_alpha :: real
  enable_semantic_channel :: bool
  semantic_trigger_min_entities :: int
  trigger_keywords :: "string list"
  severity_keywords_fatal :: "string list"
  severity_keywords_error :: "string list"
  entity_blacklist_exact :: "string list"
  entity_blacklist_regex :: "rx list"
  token_drop_regex :: "rx list"

definition BS :: char where
  \<comment> \<open>the backslash\<close>
  "BS = CHR 0x5C"

definition blacklist_regex_default :: rx where
  \<comment> \<open>\<^verbatim>\<open>re.compile('^::1$')\<close>\<close>
  "blacklist_regex_default = seq [Bol, One (Lit CHR '':''), One (Lit CHR '':''), One (Lit CHR ''1''), Eol]"

text \<open>
  The default of \<^verbatim>\<open>token_drop_regex\<close>. The source has the (non-raw) string literal
  \<^verbatim>\<open>'^\\\\d{4}-\\\\d{2}-\\\\d{2}-\\\\d{2}\\\\.\\\\d{2}\\\\.\\\\d{2}\\\\.\\\\d+$'\<close>, four backslashes
  at each place. Python reads each four as two backslash characters, so the pattern that
  \<^verbatim>\<open>re.compile\<close> receives is \<^verbatim>\<open>^\\d{4}-\\d{2}-\\d{2}-\\d{2}\\.\\d{2}\\.\\d{2}\\.\\d+$\<close>, in which
  \<^verbatim>\<open>\\\<close> is a literal backslash, \<^verbatim>\<open>d{4}\<close> is four letters d, and \<^verbatim>\<open>.\<close> is any
  character.
\<close>

definition token_drop_regex_default :: rx where
  "token_drop_regex_default = seq
     [Bol,
      One (Lit BS), Rep (Lit CHR ''d'') 4 (Some 4), One (Lit CHR ''-''),
      One (Lit BS), Rep (Lit CHR ''d'') 2 (Some 2), One (Lit CHR ''-''),
      One (Lit BS), Rep (Lit CHR ''d'') 2 (Some 2), One (Lit CHR ''-''),
      One (Lit BS), Rep (Lit CHR ''d'') 2 (Some 2),
      One (Lit BS), One AnyChar,
      One (Lit BS), Rep (Lit CHR ''d'') 2 (Some 2),
      One (Lit BS), One AnyChar,
      One (Lit BS), Rep (Lit CHR ''d'') 2 (Some 2),
      One (Lit BS), One AnyChar,
      One (Lit BS), Rep (Lit CHR ''d'') 1 None,
      Eol]"

definition default_config :: RecallConfig where
  "default_config = \<lparr>
     theta_tc = 2, theta_rf = 2, delta_t_sec = 300, min_token_len = 2,
     graph_window_t_sec = 900, decay_lambda = None, theta_w = 5 / 100,
     activity_beta = 99 / 100, activity_alpha = 1, activity_epsilon = 1 / 10,
     temporal_k = 15, evidence_budget_nmax = 30, degree_threshold_dmax = 200,
     score_a = 1, score_b = 1, score_c = 1,
     dedup_case_insensitive = False,
     enable_severity_trigger = True, enable_burst_trigger = True,
     burst_sigma = 3, burst_window_sec = 300, burst_ema_alpha = 1 / 100,
     enable_semantic_channel = False, semantic_trigger_min_entities = 1,
     trigger_keywords = [''fatal'', ''panic'', ''exception'', ''critical'', ''failure'', ''machine check''],
     severity_keywords_fatal = [''fatal'', ''panic'', ''critical'', ''machine check''],
     severity_keywords_error = [''error'', ''exception'', ''fail'', ''failure'', ''crash'', ''abort'', ''terminated''],
     entity_blacklist_exact = [''127.0.0.1'', ''0.0.0.0'', ''localhost'', ''/tmp''],
     entity_blacklist_regex = [blacklist_regex_default],
     token_drop_regex = [token_drop_regex_default] \<rparr>"

definition is_blacklisted_entity :: "RecallConfig \<Rightarrow> string \<Rightarrow> bool" where
  "is_blacklisted_entity cfg ent =
     (let s = strip ent in
      if s = [] then True
      else if s \<in> set (entity_blacklist_exact cfg) then True
      else list_ex (\<lambda>r. rx_search r s) (entity_blacklist_regex cfg))"

definition should_drop_token :: "RecallConfig \<Rightarrow> string \<Rightarrow> bool" where
  "should_drop_token cfg token =
     (if token = [] then True
      else list_ex (\<lambda>r. rx_search r token) (token_drop_regex cfg))"

section \<open>text.py\<close>

definition WS :: rx where
  \<comment> \<open>\<^verbatim>\<open>_WS = re.compile('\\s+')\<close>: the pattern \<^verbatim>\<open>\s+\<close>\<close>
  "WS = Rep Space 1 None"

definition hex_rx :: rx where
  \<comment> \<open>\<^verbatim>\<open>'\\b0x[0-9a-f]+\\b'\<close>: the pattern \<^verbatim>\<open>\b0x[0-9a-f]+\b\<close>\<close>
  "hex_rx = seq [WordB, One (Lit CHR ''0''), One (Lit CHR ''x''),
     Rep (OneOf [Range CHR ''0'' CHR ''9'', Range CHR ''a'' CHR ''f'']) 1 None, WordB]"

definition num_rx :: rx where
  \<comment> \<open>\<^verbatim>\<open>'\\b\\d+\\b'\<close>: the pattern \<^verbatim>\<open>\b\d+\b\<close>\<close>
  "num_rx = seq [WordB, Rep Digit 1 None, WordB]"

definition normalize_message_for_dedup :: "string \<Rightarrow> bool \<Rightarrow> string" where
  "normalize_message_for_dedup msg case_insensitive =
     (let s = strip msg;
          s = (if case_insensitive then lower s else s)
      in rx_sub WS '' '' s)"

definition mask_for_template_key :: "string \<Rightarrow> string" where
  "mask_for_template_key msg =
     (let s = lower (strip msg);
          s = rx_sub hex_rx ''<HEX>'' s;
          s = rx_sub num_rx ''<NUM>'' s
      in rx_sub WS '' '' s)"

definition trim_keep :: "char \<Rightarrow> bool" where
  \<comment> \<open>The characters at which the two trimming loops of the tokenizer stop.\<close>
  "trim_keep c = (isalnum c \<or> c \<in> set ''/._-:'')"

definition trim_token :: "string \<Rightarrow> string" where
  \<comment> \<open>The two \<^verbatim>\<open>while\<close> loops: first the end, then the start.\<close>
  "trim_token t =
     (let t = rev (dropWhile (\<lambda>c. \<not> trim_keep c) (rev t))
      in dropWhile (\<lambda>c. \<not> trim_keep c) t)"

definition tokenize_for_entity_candidates :: "string \<Rightarrow> string list" where
  "tokenize_for_entity_candidates msg =
     (if msg = [] then []
      else filter (\<lambda>t. t \<noteq> [])
             (map trim_token (filter (\<lambda>t. t \<noteq> []) (rx_split WS (strip msg)))))"

definition char_type :: "bool \<Rightarrow> char \<Rightarrow> nat" where
  \<comment> \<open>The local function \<^verbatim>\<open>_t\<close> of \<^verbatim>\<open>token_complexity\<close>.\<close>
  "char_type case_sensitive ch =
     (if isdigit ch then 0
      else if isalpha ch then (if case_sensitive \<and> isupper ch then 3 else 1)
      else 2)"

fun tc_loop :: "bool \<Rightarrow> nat \<Rightarrow> int \<Rightarrow> string \<Rightarrow> int" where
  "tc_loop cs last_type tc [] = tc"
| "tc_loop cs last_type tc (ch # rest) =
     (let cur = char_type cs ch
      in tc_loop cs cur (if cur \<noteq> last_type then tc + 1 else tc) rest)"

definition token_complexity :: "string \<Rightarrow> bool \<Rightarrow> int" where
  "token_complexity token case_sensitive =
     (if token = [] then 0
      else if length token < 2 then 0
      else tc_loop case_sensitive (char_type case_sensitive (hd token)) 0 (tl token))"

definition unique_tokens :: "string list \<Rightarrow> string list" where
  \<comment> \<open>\<^verbatim>\<open>set(t for t in tokens if t)\<close>\<close>
  "unique_tokens tokens = remdups (filter (\<lambda>t. t \<noteq> []) tokens)"

section \<open>recurrence.py\<close>

subsection \<open>TokenRecurrenceCounter\<close>

record TokenRecurrenceCounter =
  window_sec :: int
  rc_q :: "(int \<times> string list) list"      \<comment> \<open>\<^verbatim>\<open>_q\<close>\<close>
  counts :: "string \<rightharpoonup> int"               \<comment> \<open>\<^verbatim>\<open>_counts\<close>, a \<^verbatim>\<open>defaultdict(int)\<close>\<close>

definition new_TokenRecurrenceCounter :: "int \<Rightarrow> TokenRecurrenceCounter" where
  "new_TokenRecurrenceCounter w = \<lparr> window_sec = w, rc_q = [], counts = Map.empty \<rparr>"

definition count_of :: "(string \<rightharpoonup> int) \<Rightarrow> string \<Rightarrow> int" where
  \<comment> \<open>Reading a \<^verbatim>\<open>defaultdict(int)\<close>, and \<^verbatim>\<open>d.get(k, 0)\<close>.\<close>
  "count_of m k = (case m k of None \<Rightarrow> 0 | Some n \<Rightarrow> n)"

definition dec_count :: "(string \<rightharpoonup> int) \<Rightarrow> string \<Rightarrow> (string \<rightharpoonup> int)" where
  \<comment> \<open>\<^verbatim>\<open>d[t] -= 1; if d[t] <= 0: d.pop(t, None)\<close>\<close>
  "dec_count m t = (if count_of m t - 1 \<le> 0 then m(t := None) else m(t \<mapsto> count_of m t - 1))"

fun rc_evict_loop :: "int \<Rightarrow> (int \<times> string list) list \<Rightarrow> (string \<rightharpoonup> int)
    \<Rightarrow> (int \<times> string list) list \<times> (string \<rightharpoonup> int)" where
  "rc_evict_loop cutoff [] m = ([], m)"
| "rc_evict_loop cutoff ((t, tok_set) # q) m =
     (if t < cutoff then rc_evict_loop cutoff q (fold (\<lambda>t m. dec_count m t) tok_set m)
      else ((t, tok_set) # q, m))"

definition rc_evict :: "TokenRecurrenceCounter \<Rightarrow> int \<Rightarrow> TokenRecurrenceCounter" where
  "rc_evict rc now_ts =
     (if window_sec rc \<le> 0 then rc
      else case rc_evict_loop (now_ts - window_sec rc) (rc_q rc) (counts rc) of
             (q, m) \<Rightarrow> rc\<lparr> rc_q := q, counts := m \<rparr>)"

definition rc_push :: "TokenRecurrenceCounter \<Rightarrow> int \<Rightarrow> string list \<Rightarrow> TokenRecurrenceCounter" where
  "rc_push rc ts tokens_in_log =
     (let tok_set = unique_tokens tokens_in_log;
          rc = rc\<lparr> rc_q := rc_q rc @ [(ts, tok_set)] \<rparr>;
          rc = rc\<lparr> counts := fold (\<lambda>t m. m(t \<mapsto> count_of m t + 1)) tok_set (counts rc) \<rparr>
      in rc_evict rc ts)"

definition rf :: "TokenRecurrenceCounter \<Rightarrow> string \<Rightarrow> int" where
  "rf rc token = count_of (counts rc) token"

subsection \<open>TemplateBurstDetector\<close>

record EmaStats =
  mean :: real
  var :: real
  initialized :: bool

record TemplateBurstDetector =
  bd_window_sec :: int                       \<comment> \<open>\<^verbatim>\<open>burst_window_sec\<close>\<close>
  ema_alpha :: real
  sigma :: real
  bd_q :: "(int \<times> string) list"               \<comment> \<open>\<^verbatim>\<open>_q\<close>\<close>
  win_counts :: "string \<rightharpoonup> int"               \<comment> \<open>\<^verbatim>\<open>_win_counts\<close>, a \<^verbatim>\<open>defaultdict(int)\<close>\<close>
  ema :: "string \<rightharpoonup> EmaStats"                 \<comment> \<open>\<^verbatim>\<open>_ema\<close>, a \<^verbatim>\<open>defaultdict(_EmaStats)\<close>\<close>

definition new_TemplateBurstDetector :: "int \<Rightarrow> real \<Rightarrow> real \<Rightarrow> TemplateBurstDetector" where
  "new_TemplateBurstDetector w a sg =
     \<lparr> bd_window_sec = w, ema_alpha = a, sigma = sg, bd_q = [], win_counts = Map.empty, ema = Map.empty \<rparr>"

fun bd_evict_loop :: "int \<Rightarrow> (int \<times> string) list \<Rightarrow> (string \<rightharpoonup> int)
    \<Rightarrow> (int \<times> string) list \<times> (string \<rightharpoonup> int)" where
  "bd_evict_loop cutoff [] m = ([], m)"
| "bd_evict_loop cutoff ((t, key) # q) m =
     (if t < cutoff then bd_evict_loop cutoff q (dec_count m key)
      else ((t, key) # q, m))"

definition bd_evict :: "TemplateBurstDetector \<Rightarrow> int \<Rightarrow> TemplateBurstDetector" where
  "bd_evict det now_ts =
     (if bd_window_sec det \<le> 0 then det
      else case bd_evict_loop (now_ts - bd_window_sec det) (bd_q det) (win_counts det) of
             (q, m) \<Rightarrow> det\<lparr> bd_q := q, win_counts := m \<rparr>)"

definition ema_of :: "(string \<rightharpoonup> EmaStats) \<Rightarrow> string \<Rightarrow> EmaStats" where
  \<comment> \<open>Reading the \<^verbatim>\<open>defaultdict(_EmaStats)\<close>: a missing key gives a fresh \<^verbatim>\<open>_EmaStats()\<close>.\<close>
  "ema_of m key = (case m key of None \<Rightarrow> \<lparr> mean = 0, var = 0, initialized = False \<rparr> | Some st \<Rightarrow> st)"

definition ema_step :: "real \<Rightarrow> real \<Rightarrow> EmaStats \<Rightarrow> EmaStats" where
  \<comment> \<open>The \<^verbatim>\<open>if not st.initialized ... else ...\<close> of \<^verbatim>\<open>push_and_check\<close>.\<close>
  "ema_step a x st =
     (if \<not> initialized st then st\<lparr> mean := x, var := 0, initialized := True \<rparr>
      else
        let prev_mean = mean st;
            st = st\<lparr> mean := (1 - a) * mean st + a * x \<rparr>
        in st\<lparr> var := (1 - a) * var st + a * (x - prev_mean) * (x - mean st) \<rparr>)"

definition push_and_check :: "TemplateBurstDetector \<Rightarrow> int \<Rightarrow> string \<Rightarrow> bool \<times> TemplateBurstDetector" where
  "push_and_check det ts key =
     (if key = [] then (False, det)
      else
        let det = det\<lparr> bd_q := bd_q det @ [(ts, key)] \<rparr>;
            det = det\<lparr> win_counts := (win_counts det)(key \<mapsto> count_of (win_counts det) key + 1) \<rparr>;
            det = bd_evict det ts;
            x = real_of_int (count_of (win_counts det) key);
            st = ema_step (ema_alpha det) x (ema_of (ema det) key);
            det = det\<lparr> ema := (ema det)(key \<mapsto> st) \<rparr>;
            std = sqrt (max (var st) 0);
            threshold = mean st + sigma det * std
        in if threshold \<le> 1 then (False, det) else (x > threshold, det))"

section \<open>trigger.py\<close>

definition severity_level :: "RecallConfig \<Rightarrow> string \<Rightarrow> int" where
  "severity_level cfg message =
     (let s = lower message in
      if list_ex (\<lambda>kw. contains s kw) (severity_keywords_fatal cfg) then 3
      else if list_ex (\<lambda>kw. contains s kw) (severity_keywords_error cfg) then 2
      else if contains s ''warn'' \<or> contains s ''warning'' then 1
      else 0)"

record TriggerDecision =
  triggered :: bool
  trig_by :: string                          \<comment> \<open>\<^verbatim>\<open>by\<close>\<close>
  template_key :: "string option"

record TriggerEngine =
  te_cfg :: RecallConfig
  burst :: TemplateBurstDetector

definition new_TriggerEngine :: "RecallConfig \<Rightarrow> TriggerEngine" where
  "new_TriggerEngine cfg =
     \<lparr> te_cfg = cfg,
       burst = new_TemplateBurstDetector (burst_window_sec cfg) (burst_ema_alpha cfg) (burst_sigma cfg) \<rparr>"

definition check :: "TriggerEngine \<Rightarrow> int \<Rightarrow> string \<Rightarrow> TriggerDecision \<times> TriggerEngine" where
  "check te ts_sec message =
     (let msg = message in
      if enable_severity_trigger (te_cfg te) \<and>
         list_ex (\<lambda>kw. contains (lower msg) kw) (trigger_keywords (te_cfg te))
      then (\<lparr> triggered = True, trig_by = ''severity'', template_key = None \<rparr>, te)
      else if enable_burst_trigger (te_cfg te) then
        (let key = mask_for_template_key msg in
         case push_and_check (burst te) ts_sec key of
           (fired, det) \<Rightarrow>
             if fired then (\<lparr> triggered = True, trig_by = ''burst'', template_key = Some key \<rparr>, te\<lparr> burst := det \<rparr>)
             else (\<lparr> triggered = False, trig_by = ''none'', template_key = Some key \<rparr>, te\<lparr> burst := det \<rparr>))
      else (\<lparr> triggered = False, trig_by = ''none'', template_key = None \<rparr>, te))"

section \<open>entity_extraction.py\<close>

definition octet_dot :: rx where
  \<comment> \<open>\<^verbatim>\<open>\d{1,3}\.\<close>\<close>
  "octet_dot = seq [Rep Digit 1 (Some 3), One (Lit CHR ''.'')]"

definition ipv4_ip :: rx where
  \<comment> \<open>The group \<^verbatim>\<open>(?P<ip>(?:\d{1,3}\.){3}\d{1,3})\<close>; the group repeated three times is
      written out.\<close>
  "ipv4_ip = seq [Bol, octet_dot, octet_dot, octet_dot, Rep Digit 1 (Some 3)]"

definition ipv4_port_tail :: rx where
  \<comment> \<open>\<^verbatim>\<open>(?::\d{1,5})?$\<close>\<close>
  "ipv4_port_tail = seq [Opt (seq [One (Lit CHR '':''), Rep Digit 1 (Some 5)]), Eol]"

definition IPV4_PORT_match :: "string \<Rightarrow> string option" where
  \<comment> \<open>\<^verbatim>\<open>_IPV4_PORT.match(s)\<close> for the pattern
      \<^verbatim>\<open>^(?P<ip>(?:\d{1,3}\.){3}\d{1,3})(?::\d{1,5})?$\<close>: \<open>None\<close> when there is no match,
      else the text of the group \<^verbatim>\<open>ip\<close>.\<close>
  "IPV4_PORT_match s = match_group ipv4_ip ipv4_port_tail s"

definition identifier_rx :: rx where
  \<comment> \<open>\<^verbatim>\<open>^[A-Za-z]\w*-\w+\<close>\<close>
  "identifier_rx = seq [Bol, One (OneOf [Range CHR ''A'' CHR ''Z'', Range CHR ''a'' CHR ''z'']),
     Rep WordChar 0 None, One (Lit CHR ''-''), Rep WordChar 1 None]"

definition number_rx :: rx where
  \<comment> \<open>\<^verbatim>\<open>^\d+$\<close>\<close>
  "number_rx = seq [Bol, Rep Digit 1 None, Eol]"

definition code_rx :: rx where
  \<comment> \<open>\<^verbatim>\<open>^[A-Z0-9_]{3,}$\<close>\<close>
  "code_rx = seq [Bol, Rep (OneOf [Range CHR ''A'' CHR ''Z'', Range CHR ''0'' CHR ''9'', Lit CHR ''_'']) 3 None, Eol]"

definition classify_entity_type :: "string \<Rightarrow> string" where
  "classify_entity_type ent =
     (let s = strip ent in
      if s = [] then ''unknown''
      else if IPV4_PORT_match s \<noteq> None then ''ip''
      else if startswith s ''/'' \<or> startswith s ''./'' then ''path''
      else if startswith s ''blk_'' then ''block_id''
      else if rx_match identifier_rx s then ''identifier''
      else if rx_match number_rx s then ''number''
      else if rx_match code_rx s then ''code''
      else ''token'')"

record EntityExtractionResult =
  estat :: "string list"
  esem :: "string list"
  final :: "string list"
  estat_validated :: "string list"

record SemanticValidationResult =
  keep :: "string list"
  add :: "string list"
  drop_ents :: "string list"     \<comment> \<open>\<^verbatim>\<open>drop\<close>\<close>

definition set_add :: "'a list \<Rightarrow> 'a \<Rightarrow> 'a list" where
  \<comment> \<open>\<^verbatim>\<open>s.add(x)\<close> on a set\<close>
  "set_add xs x = (if x \<in> set xs then xs else xs @ [x])"

definition set_union :: "'a list \<Rightarrow> 'a list \<Rightarrow> 'a list" where
  \<comment> \<open>\<^verbatim>\<open>a | b\<close> on sets\<close>
  "set_union xs ys = fold (\<lambda>y acc. set_add acc y) ys xs"

definition in_message_or_ip_port :: "string \<Rightarrow> string \<Rightarrow> bool" where
  "in_message_or_ip_port entity message =
     (let e = strip entity; msg = message in
      if e = [] then False
      else if contains msg e then True
      else case IPV4_PORT_match e of
             None \<Rightarrow> False
           | Some ip \<Rightarrow>
               if ip \<noteq> [] \<and> contains msg ip then True
               else if ip \<noteq> [] \<and> contains msg (ip @ '':'') then True
               else False)"

text \<open>
  The semantic channel asks an external language model. Its answer, after
  \<^verbatim>\<open>json.loads\<close> and \<^verbatim>\<open>_extract_values\<close>, is three sets of stripped, non-empty strings
  (\<^verbatim>\<open>keep\<close>, \<^verbatim>\<open>add\<close>, \<^verbatim>\<open>drop\<close>; all empty when the answer does not parse). The model
  takes these three sets as the answer of the collaborator, a function of the message and
  the candidates, and applies to them what \<^verbatim>\<open>parse_semantic_validation_response\<close> does
  next.
\<close>

type_synonym semantic_answer = "string \<Rightarrow> string list \<Rightarrow> string list \<times> string list \<times> string list"

definition validate_and_supplement :: "semantic_answer \<Rightarrow> string \<Rightarrow> string list \<Rightarrow> SemanticValidationResult" where
  "validate_and_supplement answer message candidates =
     (case answer message candidates of
        (k, a, d) \<Rightarrow>
          \<lparr> keep = filter (\<lambda>e. in_message_or_ip_port e message) (remdups k),
            add = filter (\<lambda>e. in_message_or_ip_port e message) (remdups a),
            drop_ents = filter (\<lambda>e. e \<noteq> []) (remdups d) \<rparr>)"

record StatisticalEntityExtractor =
  se_cfg :: RecallConfig
  rf_counter :: TokenRecurrenceCounter

definition new_StatisticalEntityExtractor :: "RecallConfig \<Rightarrow> StatisticalEntityExtractor" where
  "new_StatisticalEntityExtractor cfg =
     \<lparr> se_cfg = cfg, rf_counter = new_TokenRecurrenceCounter (delta_t_sec cfg) \<rparr>"

definition extract_tok :: "StatisticalEntityExtractor \<Rightarrow> string list \<Rightarrow> string \<Rightarrow> string list" where
  \<comment> \<open>One round of the loop \<^verbatim>\<open>for tok in toks\<close> of \<^verbatim>\<open>extract\<close>, on the set \<^verbatim>\<open>ents\<close>.\<close>
  "extract_tok se ents tok =
     (let cfg = se_cfg se in
      if tok = [] \<or> int (length tok) < min_token_len cfg then ents
      else if should_drop_token cfg tok then ents
      else
        let ents =
              (case IPV4_PORT_match tok of
                 None \<Rightarrow> ents
               | Some ip_only \<Rightarrow>
                   if ip_only \<noteq> [] \<and> \<not> is_blacklisted_entity cfg ip_only
                   then set_add ents ip_only else ents)
        in if is_blacklisted_entity cfg tok then ents
           else
             let tc = token_complexity tok False;
                 r = rf (rf_counter se) tok
             in if tc > theta_tc cfg \<and> r > theta_rf cfg then set_add ents tok else ents)"

definition stat_extract :: \<comment> \<open>\<^verbatim>\<open>StatisticalEntityExtractor.extract\<close>\<close>
  "StatisticalEntityExtractor \<Rightarrow> int \<Rightarrow> string \<Rightarrow> string list \<times> StatisticalEntityExtractor" where
  "stat_extract se ts_sec message =
     (let toks = tokenize_for_entity_candidates message;
          se = se\<lparr> rf_counter := rc_push (rf_counter se) ts_sec toks \<rparr>
      in (fold (\<lambda>tok ents. extract_tok se ents tok) toks [], se))"

definition extract_entities :: "RecallConfig \<Rightarrow> StatisticalEntityExtractor \<Rightarrow> int \<Rightarrow> string
    \<Rightarrow> semantic_answer option \<Rightarrow> EntityExtractionResult \<times> StatisticalEntityExtractor" where
  "extract_entities cfg stat_extractor ts_sec message semantic_extractor =
     (case stat_extract stat_extractor ts_sec message of
        (estat0, se) \<Rightarrow>
          let (estat_validated0, esem0) =
                (case semantic_extractor of
                   Some answer \<Rightarrow>
                     if enable_semantic_channel cfg \<and>
                        int (length estat0) < semantic_trigger_min_entities cfg
                     then
                       (let sem = validate_and_supplement answer message estat0
                        in (if keep sem \<noteq> [] then keep sem else estat0, add sem))
                     else (estat0, [])
                 | None \<Rightarrow> (estat0, []));
              final0 = set_union estat_validated0 esem0;
              final1 = filter (\<lambda>e. \<not> is_blacklisted_entity cfg e) final0;
              estat_validated1 = filter (\<lambda>e. \<not> is_blacklisted_entity cfg e) estat_validated0
          in (\<lparr> estat = estat0, esem = esem0, final = final1, estat_validated = estat_validated1 \<rparr>, se))"

section \<open>dynamic_graph.py\<close>

record LogNode =
  log_id :: int
  ts_sec :: int
  message :: string
  severity :: int
  prev_log_id :: "int option"
  next_log_id :: "int option"

record EntityNode =
  ent_value :: string                       \<comment> \<open>\<^verbatim>\<open>value\<close>\<close>
  etype :: string
  activity :: real
  last_step :: int
  last_seen_ts :: int

record DynamicLogEntityGraph =
  g_cfg :: RecallConfig                      \<comment> \<open>\<^verbatim>\<open>cfg\<close>\<close>
  step :: int                                \<comment> \<open>\<^verbatim>\<open>_step\<close>\<close>
  logs :: "int \<rightharpoonup> LogNode"
  entities :: "(string \<times> EntityNode) list"
  log_to_entities :: "int \<rightharpoonup> string list"
  entity_to_logs :: "string \<rightharpoonup> int list"       \<comment> \<open>a \<^verbatim>\<open>defaultdict(deque)\<close>\<close>
  log_window :: "int list"                   \<comment> \<open>\<^verbatim>\<open>_log_window\<close>\<close>
  last_log_id :: "int option"                \<comment> \<open>\<^verbatim>\<open>_last_log_id\<close>\<close>

definition new_DynamicLogEntityGraph :: "RecallConfig \<Rightarrow> DynamicLogEntityGraph" where
  "new_DynamicLogEntityGraph cfg =
     \<lparr> g_cfg = cfg, step = 0, logs = Map.empty, entities = [], log_to_entities = Map.empty,
       entity_to_logs = Map.empty, log_window = [], last_log_id = None \<rparr>"

definition lambda :: "DynamicLogEntityGraph \<Rightarrow> real" where
  \<comment> \<open>\<^verbatim>\<open>_lambda\<close>\<close>
  "lambda g =
     (case decay_lambda (g_cfg g) of
        Some lam \<Rightarrow> lam
      | None \<Rightarrow>
          let T = real_of_int (graph_window_t_sec (g_cfg g)); th = theta_w (g_cfg g)
          in if T \<le> 0 \<or> th \<le> 0 then 0 else - ln th / T)"

definition edge_weight_at :: "DynamicLogEntityGraph \<Rightarrow> int \<Rightarrow> int \<Rightarrow> real" where
  \<comment> \<open>\<^verbatim>\<open>_edge_weight\<close>\<close>
  "edge_weight_at g edge_last_ts now_ts =
     (let dt = max 0 (now_ts - edge_last_ts); lam = lambda g
      in if lam \<le> 0 then 1 else exp (- lam * real_of_int dt))"

definition structural_edge_weight :: "DynamicLogEntityGraph \<Rightarrow> int \<Rightarrow> string \<Rightarrow> int \<Rightarrow> real" where
  "structural_edge_weight g lid entity now_ts =
     (case logs g lid of None \<Rightarrow> 0 | Some nd \<Rightarrow> edge_weight_at g (ts_sec nd) now_ts)"

definition temporal_edge_weight :: "DynamicLogEntityGraph \<Rightarrow> int \<Rightarrow> int \<Rightarrow> int \<Rightarrow> real" where
  "temporal_edge_weight g src_log_id dst_log_id now_ts =
     (case logs g dst_log_id of None \<Rightarrow> 0 | Some nd \<Rightarrow> edge_weight_at g (ts_sec nd) now_ts)"

definition activate_entity :: "DynamicLogEntityGraph \<Rightarrow> EntityNode \<Rightarrow> int \<Rightarrow> EntityNode" where
  \<comment> \<open>\<^verbatim>\<open>_activate_entity\<close>\<close>
  "activate_entity g en ts =
     (let dt_steps = max 0 (step g - last_step en);
          beta = activity_beta (g_cfg g);
          en = (if dt_steps > 0 then en\<lparr> activity := activity en * beta ^ nat dt_steps \<rparr> else en);
          en = en\<lparr> activity := activity en + activity_alpha (g_cfg g) \<rparr>
      in en\<lparr> last_step := step g, last_seen_ts := ts \<rparr>)"

definition add_entity :: "int \<Rightarrow> int \<Rightarrow> string \<Rightarrow> DynamicLogEntityGraph \<Rightarrow> DynamicLogEntityGraph" where
  \<comment> \<open>One round of the loop \<^verbatim>\<open>for e in ent_set\<close> of \<^verbatim>\<open>add_log\<close>.\<close>
  "add_entity lid ts e g =
     (let en = (case map_of (entities g) e of
                  Some en \<Rightarrow> en
                | None \<Rightarrow> \<lparr> ent_value = e, etype = classify_entity_type e, activity = 0,
                            last_step = step g, last_seen_ts = ts \<rparr>);
          g = g\<lparr> entities := AList.update e (activate_entity g en ts) (entities g) \<rparr>
      in g\<lparr> entity_to_logs := (entity_to_logs g)
              (e \<mapsto> (case entity_to_logs g e of None \<Rightarrow> [] | Some dq \<Rightarrow> dq) @ [lid]) \<rparr>)"

definition clean_entity :: "RecallConfig \<Rightarrow> string list \<Rightarrow> string \<Rightarrow> string list" where
  \<comment> \<open>One round of the loop \<^verbatim>\<open>for e in entities\<close> of \<^verbatim>\<open>add_log\<close>, that builds \<^verbatim>\<open>ent_set\<close>.\<close>
  "clean_entity cfg ent_set e =
     (let e2 = strip e in
      if e2 = [] then ent_set
      else if is_blacklisted_entity cfg e2 then ent_set
      else set_add ent_set e2)"

definition add_log :: "DynamicLogEntityGraph \<Rightarrow> int \<Rightarrow> int \<Rightarrow> string \<Rightarrow> string list \<Rightarrow> int
    \<Rightarrow> DynamicLogEntityGraph" where
  "add_log g lid ts msg ents sev =
     (let g = g\<lparr> step := step g + 1 \<rparr>;
          node = \<lparr> log_id = lid, ts_sec = ts, message = msg, severity = sev,
                   prev_log_id = None, next_log_id = None \<rparr>;
          g = g\<lparr> logs := (logs g)(lid \<mapsto> node) \<rparr>;
          g = g\<lparr> log_window := log_window g @ [lid] \<rparr>;
          g = (case last_log_id g of
                 None \<Rightarrow> g
               | Some l \<Rightarrow>
                   (case logs g l of
                      None \<Rightarrow> g
                    | Some prev \<Rightarrow>
                        let g = g\<lparr> logs := (logs g)(l \<mapsto> prev\<lparr> next_log_id := Some lid \<rparr>) \<rparr>
                        in g\<lparr> logs := (logs g)(lid \<mapsto> (the (logs g lid))\<lparr> prev_log_id := Some (log_id prev) \<rparr>) \<rparr>));
          g = g\<lparr> last_log_id := Some lid \<rparr>;
          ent_set = fold (\<lambda>e s. clean_entity (g_cfg g) s e) ents [];
          g = g\<lparr> log_to_entities := (log_to_entities g)(lid \<mapsto> ent_set) \<rparr>
      in fold (add_entity lid ts) ent_set g)"

definition unlink_entity :: "int \<Rightarrow> string \<Rightarrow> DynamicLogEntityGraph \<Rightarrow> DynamicLogEntityGraph" where
  \<comment> \<open>One round of the loop \<^verbatim>\<open>for e in ents\<close> of \<^verbatim>\<open>_remove_log\<close>. The \<^verbatim>\<open>popleft\<close> loop
      changes the deque in place, so its result is stored in either case.\<close>
  "unlink_entity lid e g =
     (case entity_to_logs g e of
        None \<Rightarrow> g
      | Some dq \<Rightarrow>
          if dq = [] then g
          else
            let dq = dropWhile (\<lambda>x. x = lid) dq;
                dq = (if dq \<noteq> [] \<and> lid \<in> set dq then filter (\<lambda>x. x \<noteq> lid) dq else dq)
            in if dq = [] then g\<lparr> entity_to_logs := (entity_to_logs g)(e := None),
                                   entities := AList.delete e (entities g) \<rparr>
               else g\<lparr> entity_to_logs := (entity_to_logs g)(e \<mapsto> dq) \<rparr>)"

definition remove_log :: "DynamicLogEntityGraph \<Rightarrow> int \<Rightarrow> DynamicLogEntityGraph" where
  \<comment> \<open>\<^verbatim>\<open>_remove_log\<close>\<close>
  "remove_log g lid =
     (let popped = logs g lid;
          ents = (case log_to_entities g lid of None \<Rightarrow> [] | Some es \<Rightarrow> es);
          g = g\<lparr> logs := (logs g)(lid := None), log_to_entities := (log_to_entities g)(lid := None) \<rparr>;
          g = (case popped of
                 None \<Rightarrow> g
               | Some nd \<Rightarrow>
                   let g = (case prev_log_id nd of
                              None \<Rightarrow> g
                            | Some p \<Rightarrow>
                                (case logs g p of
                                   None \<Rightarrow> g
                                 | Some pn \<Rightarrow> g\<lparr> logs := (logs g)(p \<mapsto> pn\<lparr> next_log_id := next_log_id nd \<rparr>) \<rparr>));
                       g = (case next_log_id nd of
                              None \<Rightarrow> g
                            | Some n \<Rightarrow>
                                (case logs g n of
                                   None \<Rightarrow> g
                                 | Some nn \<Rightarrow> g\<lparr> logs := (logs g)(n \<mapsto> nn\<lparr> prev_log_id := prev_log_id nd \<rparr>) \<rparr>))
                   in if last_log_id g = Some lid then g\<lparr> last_log_id := prev_log_id nd \<rparr> else g)
      in fold (unlink_entity lid) ents g)"

fun evict_loop :: "int \<Rightarrow> int list \<Rightarrow> DynamicLogEntityGraph \<Rightarrow> DynamicLogEntityGraph" where
  \<comment> \<open>The \<^verbatim>\<open>while\<close> loop of \<^verbatim>\<open>_evict_logs\<close>; the list is \<^verbatim>\<open>_log_window\<close>.\<close>
  "evict_loop cutoff [] g = g\<lparr> log_window := [] \<rparr>"
| "evict_loop cutoff (lid # w) g =
     (case logs g lid of
        None \<Rightarrow> g\<lparr> log_window := lid # w \<rparr>
      | Some nd \<Rightarrow>
          if ts_sec nd < cutoff then evict_loop cutoff w (remove_log (g\<lparr> log_window := w \<rparr>) lid)
          else g\<lparr> log_window := lid # w \<rparr>)"

definition evict_logs :: "DynamicLogEntityGraph \<Rightarrow> int \<Rightarrow> DynamicLogEntityGraph" where
  \<comment> \<open>\<^verbatim>\<open>_evict_logs\<close>\<close>
  "evict_logs g now_ts =
     (if graph_window_t_sec (g_cfg g) \<le> 0 then g
      else evict_loop (now_ts - graph_window_t_sec (g_cfg g)) (log_window g) g)"

definition prune_cutoff :: "DynamicLogEntityGraph \<Rightarrow> int \<Rightarrow> int option" where
  \<comment> \<open>The head of \<^verbatim>\<open>_prune_edges\<close>: \<open>None\<close> where it returns early, else \<^verbatim>\<open>cutoff_ts\<close>.\<close>
  "prune_cutoff g now_ts =
     (let th = theta_w (g_cfg g) in
      if th \<le> 0 then None
      else
        let lam = lambda g in
        if lam \<le> 0 then None
        else
          let age_limit = \<lceil>- ln th / lam\<rceil> in
          if age_limit \<le> 0 then None else Some (now_ts - age_limit))"

definition purge_entity :: "int \<Rightarrow> string \<Rightarrow> DynamicLogEntityGraph \<Rightarrow> DynamicLogEntityGraph" where
  \<comment> \<open>One round of the loop \<^verbatim>\<open>for e in list(ents)\<close> of \<^verbatim>\<open>_prune_edges\<close>.\<close>
  "purge_entity lid e g =
     (case entity_to_logs g e of
        None \<Rightarrow> g
      | Some dq \<Rightarrow>
          if dq = [] then g
          else
            let g = (if lid \<in> set dq
                     then g\<lparr> entity_to_logs := (entity_to_logs g)(e \<mapsto> filter (\<lambda>x. x \<noteq> lid) dq) \<rparr>
                     else g)
            in if entity_to_logs g e = Some []
               then g\<lparr> entity_to_logs := (entity_to_logs g)(e := None),
                       entities := AList.delete e (entities g) \<rparr>
               else g)"

definition prune_log_edges :: "int \<Rightarrow> int \<Rightarrow> DynamicLogEntityGraph \<Rightarrow> DynamicLogEntityGraph" where
  \<comment> \<open>One round of the first loop \<^verbatim>\<open>for lid in list(self._log_window)\<close> of \<^verbatim>\<open>_prune_edges\<close>.\<close>
  "prune_log_edges cutoff_ts lid g =
     (case logs g lid of
        None \<Rightarrow> g
      | Some nd \<Rightarrow>
          if ts_sec nd \<ge> cutoff_ts then g
          else
            (case log_to_entities g lid of
               None \<Rightarrow> g
             | Some ents \<Rightarrow>
                 if ents = [] then g
                 else
                   let g = fold (purge_entity lid) ents g
                   in g\<lparr> log_to_entities := (log_to_entities g)(lid \<mapsto> []) \<rparr>))"

definition detach_log :: "int \<Rightarrow> int \<Rightarrow> DynamicLogEntityGraph \<Rightarrow> DynamicLogEntityGraph" where
  \<comment> \<open>One round of the second loop of \<^verbatim>\<open>_prune_edges\<close>. The two nodes are written one
      after the other into the store, as the two assignments of the source are.\<close>
  "detach_log cutoff_ts lid g =
     (case logs g lid of
        None \<Rightarrow> g
      | Some nd \<Rightarrow>
          (case prev_log_id nd of
             None \<Rightarrow> g
           | Some p \<Rightarrow>
               if ts_sec nd < cutoff_ts then
                 let g = (case logs g p of
                            None \<Rightarrow> g
                          | Some pn \<Rightarrow> g\<lparr> logs := (logs g)(p \<mapsto> pn\<lparr> next_log_id := None \<rparr>) \<rparr>)
                 in (case logs g lid of
                       None \<Rightarrow> g
                     | Some nd' \<Rightarrow> g\<lparr> logs := (logs g)(lid \<mapsto> nd'\<lparr> prev_log_id := None \<rparr>) \<rparr>)
               else g))"

definition prune_edges :: "DynamicLogEntityGraph \<Rightarrow> int \<Rightarrow> DynamicLogEntityGraph" where
  \<comment> \<open>\<^verbatim>\<open>_prune_edges\<close>\<close>
  "prune_edges g now_ts =
     (case prune_cutoff g now_ts of
        None \<Rightarrow> g
      | Some cutoff_ts \<Rightarrow>
          let w = log_window g;
              g = fold (prune_log_edges cutoff_ts) w g
          in fold (detach_log cutoff_ts) w g)"

definition entity_activity_now :: "DynamicLogEntityGraph \<Rightarrow> EntityNode \<Rightarrow> real" where
  \<comment> \<open>\<^verbatim>\<open>_entity_activity_now\<close>\<close>
  "entity_activity_now g en =
     (let dt_steps = max 0 (step g - last_step en); beta = activity_beta (g_cfg g)
      in if dt_steps \<le> 0 then activity en else activity en * beta ^ nat dt_steps)"

definition drop_entity :: "string \<Rightarrow> DynamicLogEntityGraph \<Rightarrow> DynamicLogEntityGraph" where
  \<comment> \<open>One round of the loop \<^verbatim>\<open>for e in to_drop\<close> of \<^verbatim>\<open>_prune_entities_by_activity\<close>.\<close>
  "drop_entity e g =
     (let lids = (case entity_to_logs g e of None \<Rightarrow> [] | Some dq \<Rightarrow> dq);
          g = fold (\<lambda>lid g. case log_to_entities g lid of
                               None \<Rightarrow> g
                             | Some es \<Rightarrow> g\<lparr> log_to_entities := (log_to_entities g)(lid \<mapsto> removeAll e es) \<rparr>)
                lids g
      in g\<lparr> entity_to_logs := (entity_to_logs g)(e := None),
            entities := AList.delete e (entities g) \<rparr>)"

definition prune_entities_by_activity :: "DynamicLogEntityGraph \<Rightarrow> DynamicLogEntityGraph" where
  \<comment> \<open>\<^verbatim>\<open>_prune_entities_by_activity\<close>\<close>
  "prune_entities_by_activity g =
     (let eps = activity_epsilon (g_cfg g) in
      if eps \<le> 0 then g
      else if step g mod 256 \<noteq> 0 then g
      else
        let to_drop = map fst (filter (\<lambda>(e, en). entity_activity_now g en < eps) (entities g))
        in fold drop_entity to_drop g)"

definition tick :: "DynamicLogEntityGraph \<Rightarrow> int \<Rightarrow> DynamicLogEntityGraph" where
  "tick g now =
     (let g = evict_logs g now;
          g = prune_edges g now
      in prune_entities_by_activity g)"

definition get_log :: "DynamicLogEntityGraph \<Rightarrow> int \<Rightarrow> LogNode option" where
  "get_log g lid = logs g lid"

definition get_entities_for_log :: "DynamicLogEntityGraph \<Rightarrow> int \<Rightarrow> string list" where
  "get_entities_for_log g lid = (case log_to_entities g lid of None \<Rightarrow> [] | Some es \<Rightarrow> es)"

definition get_logs_for_entity :: "DynamicLogEntityGraph \<Rightarrow> string \<Rightarrow> int list" where
  "get_logs_for_entity g e = (case entity_to_logs g e of None \<Rightarrow> [] | Some dq \<Rightarrow> dq)"

definition entity_degree :: "DynamicLogEntityGraph \<Rightarrow> string \<Rightarrow> int" where
  "entity_degree g e = (case entity_to_logs g e of None \<Rightarrow> 0 | Some dq \<Rightarrow> int (length dq))"

section \<open>retrieval.py\<close>

record EvidenceItem =
  e_log_id :: int                     \<comment> \<open>\<^verbatim>\<open>log_id\<close>\<close>
  e_ts_sec :: int                     \<comment> \<open>\<^verbatim>\<open>ts_sec\<close>\<close>
  e_message :: string                 \<comment> \<open>\<^verbatim>\<open>message\<close>\<close>
  e_severity :: int                   \<comment> \<open>\<^verbatim>\<open>severity\<close>\<close>
  dist :: int
  score :: real
  edge_weight :: real
  paths :: "string list"
  shared_entities :: "string list"
  time_offset :: "int option"

definition min_dist :: "int option \<Rightarrow> int option \<Rightarrow> int" where
  \<comment> \<open>\<^verbatim>\<open>_min_dist\<close>\<close>
  "min_dist a b =
     (case a of
        None \<Rightarrow> (case b of Some y \<Rightarrow> y | None \<Rightarrow> 999999)
      | Some x \<Rightarrow> (case b of None \<Rightarrow> x | Some y \<Rightarrow> min x y))"

fun walk_prev_w :: "DynamicLogEntityGraph \<Rightarrow> int \<Rightarrow> int \<Rightarrow> nat \<Rightarrow> int \<Rightarrow> real \<Rightarrow> int \<times> real" where
  \<comment> \<open>The first \<^verbatim>\<open>while\<close> loop of \<^verbatim>\<open>_temporal_path_min_edge_weight\<close>; the number is
      \<^verbatim>\<open>2048 - visited\<close>. It returns \<^verbatim>\<open>cur\<close> and \<^verbatim>\<open>w_min\<close>.\<close>
  "walk_prev_w g src now_ts 0 cur w_min = (cur, w_min)"
| "walk_prev_w g src now_ts (Suc n) cur w_min =
     (if cur = src then (cur, w_min)
      else case get_log g cur of
             None \<Rightarrow> (cur, w_min)
           | Some nd \<Rightarrow>
               (case prev_log_id nd of
                  None \<Rightarrow> (cur, w_min)
                | Some prev \<Rightarrow>
                    walk_prev_w g src now_ts n prev (min w_min (temporal_edge_weight g prev cur now_ts))))"

fun walk_next_w :: "DynamicLogEntityGraph \<Rightarrow> int \<Rightarrow> int \<Rightarrow> nat \<Rightarrow> int \<Rightarrow> real \<Rightarrow> int \<times> real" where
  \<comment> \<open>The second \<^verbatim>\<open>while\<close> loop.\<close>
  "walk_next_w g dst now_ts 0 cur w_min = (cur, w_min)"
| "walk_next_w g dst now_ts (Suc n) cur w_min =
     (if cur = dst then (cur, w_min)
      else case get_log g cur of
             None \<Rightarrow> (cur, w_min)
           | Some nd \<Rightarrow>
               (case next_log_id nd of
                  None \<Rightarrow> (cur, w_min)
                | Some nxt \<Rightarrow>
                    walk_next_w g dst now_ts n nxt (min w_min (temporal_edge_weight g cur nxt now_ts))))"

definition temporal_path_min_edge_weight :: "DynamicLogEntityGraph \<Rightarrow> int \<Rightarrow> int \<Rightarrow> int \<Rightarrow> real" where
  \<comment> \<open>\<^verbatim>\<open>_temporal_path_min_edge_weight\<close>\<close>
  "temporal_path_min_edge_weight g src dst now_ts =
     (if src = dst then 1
      else case walk_prev_w g src now_ts 2048 dst 1 of
             (cur, w_min) \<Rightarrow>
               if cur = src then w_min
               else (case walk_next_w g dst now_ts 2048 src 1 of
                       (cur, w_min) \<Rightarrow> if cur = dst then w_min else 0))"

text \<open>
  The candidate tables \<^verbatim>\<open>cand_dist_struct\<close>, \<^verbatim>\<open>shared_entities\<close>, \<^verbatim>\<open>cand_dist_time\<close> and
  \<^verbatim>\<open>msg2best\<close> are dictionaries in insertion order.
\<close>

definition struct_step :: "int \<Rightarrow> string \<Rightarrow> int
    \<Rightarrow> (int \<times> int) list \<times> (int \<times> string list) list
    \<Rightarrow> (int \<times> int) list \<times> (int \<times> string list) list" where
  \<comment> \<open>One round of \<^verbatim>\<open>for lid in g.get_logs_for_entity(e)\<close>.\<close>
  "struct_step target_log_id e lid tabs =
     (case tabs of
        (cand_dist_struct, shared) \<Rightarrow>
          if lid = target_log_id then tabs
          else (AList.update lid (min_dist (map_of cand_dist_struct lid) (Some 2)) cand_dist_struct,
                AList.update lid (set_add (case map_of shared lid of None \<Rightarrow> [] | Some es \<Rightarrow> es) e) shared))"

definition struct_candidates :: "RecallConfig \<Rightarrow> DynamicLogEntityGraph \<Rightarrow> int
    \<Rightarrow> (int \<times> int) list \<times> (int \<times> string list) list" where
  \<comment> \<open>The loop \<^verbatim>\<open>for e in eq\<close>: the tables \<^verbatim>\<open>cand_dist_struct\<close> and \<^verbatim>\<open>shared_entities\<close>.\<close>
  "struct_candidates cfg g target_log_id =
     fold (\<lambda>e tabs.
             if entity_degree g e > degree_threshold_dmax cfg then tabs
             else fold (struct_step target_log_id e) (get_logs_for_entity g e) tabs)
       (get_entities_for_log g target_log_id) ([], [])"

fun walk_cands :: "(LogNode \<Rightarrow> int option) \<Rightarrow> DynamicLogEntityGraph \<Rightarrow> nat \<Rightarrow> int \<Rightarrow> int
    \<Rightarrow> (int \<times> int) list \<Rightarrow> (int \<times> int) list" where
  \<comment> \<open>A loop \<^verbatim>\<open>for d in range(1, k + 1)\<close>: the first argument is the link it follows
      (\<^verbatim>\<open>prev_log_id\<close> or \<^verbatim>\<open>next_log_id\<close>), the number counts the rounds that are left, \<open>d\<close>
      is the loop variable.\<close>
  "walk_cands link g 0 d cur cand_dist_time = cand_dist_time"
| "walk_cands link g (Suc n) d cur cand_dist_time =
     (case get_log g cur of
        None \<Rightarrow> cand_dist_time
      | Some nd \<Rightarrow>
          (case link nd of
             None \<Rightarrow> cand_dist_time
           | Some c \<Rightarrow>
               walk_cands link g n (d + 1) c
                 (AList.update c (min (case map_of cand_dist_time c of None \<Rightarrow> 10 ^ 9 | Some x \<Rightarrow> x) d)
                    cand_dist_time)))"

definition time_candidates :: "RecallConfig \<Rightarrow> DynamicLogEntityGraph \<Rightarrow> int \<Rightarrow> (int \<times> int) list" where
  \<comment> \<open>The two loops that fill \<^verbatim>\<open>cand_dist_time\<close>.\<close>
  "time_candidates cfg g target_log_id =
     (let k = nat (temporal_k cfg);
          t = walk_cands prev_log_id g k 1 target_log_id []
      in walk_cands next_log_id g k 1 target_log_id t)"

definition dedup_step :: "RecallConfig \<Rightarrow> DynamicLogEntityGraph \<Rightarrow> int
    \<Rightarrow> (string \<times> int) list \<Rightarrow> (string \<times> int) list" where
  \<comment> \<open>One round of \<^verbatim>\<open>for lid in cand_ids\<close>, on \<^verbatim>\<open>msg2best\<close>.\<close>
  "dedup_step cfg g lid msg2best =
     (case get_log g lid of
        None \<Rightarrow> msg2best
      | Some nd \<Rightarrow>
          let key = normalize_message_for_dedup (message nd) (dedup_case_insensitive cfg) in
          if key = [] then msg2best
          else
            (case map_of msg2best key of
               None \<Rightarrow> AList.update key lid msg2best
             | Some prev \<Rightarrow>
                 (case get_log g prev of
                    None \<Rightarrow> AList.update key lid msg2best
                  | Some a \<Rightarrow>
                      if ts_sec nd > ts_sec a then AList.update key lid msg2best else msg2best)))"

definition make_item :: "RecallConfig \<Rightarrow> DynamicLogEntityGraph \<Rightarrow> int \<Rightarrow> LogNode
    \<Rightarrow> (int \<times> int) list \<Rightarrow> (int \<times> string list) list \<Rightarrow> (int \<times> int) list
    \<Rightarrow> int \<Rightarrow> LogNode \<Rightarrow> EvidenceItem" where
  \<comment> \<open>The body of \<^verbatim>\<open>for lid in dedup_ids\<close> for a log \<open>nd\<close> that the graph has.\<close>
  "make_item cfg g target_log_id tgt cand_dist_struct shared cand_dist_time lid nd =
     (let now_ts = ts_sec tgt;
          d = min_dist (map_of cand_dist_struct lid) (map_of cand_dist_time lid);
          d = max 1 d;
          sev = severity nd;
          sev = (if sev = 0 then severity_level cfg (message nd) else sev);
          w = 0;
          w = (if map_of cand_dist_time lid \<noteq> None
               then max w (temporal_path_min_edge_weight g target_log_id lid now_ts) else w);
          w = (if map_of cand_dist_struct lid \<noteq> None
               then
                 let best = fold (\<lambda>e best.
                                    let w0 = structural_edge_weight g target_log_id e now_ts;
                                        wi = structural_edge_weight g lid e now_ts
                                    in max best (min w0 wi))
                              (case map_of shared lid of None \<Rightarrow> [] | Some es \<Rightarrow> es) 0
                 in max w best
               else w);
          sc = score_a cfg * real_of_int sev + score_b cfg * (1 / real_of_int d) + score_c cfg * w;
          ps = (if map_of cand_dist_struct lid \<noteq> None then [''struct''] else []);
          ps = (if map_of cand_dist_time lid \<noteq> None then set_add ps ''time'' else ps)
      in \<lparr> e_log_id = lid, e_ts_sec = ts_sec nd, e_message = message nd, e_severity = sev,
           dist = d, score = sc, edge_weight = w, paths = ps,
           shared_entities = sort (case map_of shared lid of None \<Rightarrow> [] | Some es \<Rightarrow> es),
           time_offset = (if map_of cand_dist_time lid \<noteq> None then Some (ts_sec nd - ts_sec tgt) else None) \<rparr>)"

definition sort_desc :: "EvidenceItem list \<Rightarrow> EvidenceItem list" where
  \<comment> \<open>\<^verbatim>\<open>items.sort(key=lambda x: (x.score, x.ts_sec), reverse=True)\<close>: a stable sort in
      descending order of the key (items with equal keys keep their order).\<close>
  "sort_desc items = rev (sort_key (\<lambda>x. (score x, e_ts_sec x)) (rev items))"

definition py_take :: "int \<Rightarrow> 'a list \<Rightarrow> 'a list" where
  \<comment> \<open>The slice \<^verbatim>\<open>xs[:n]\<close>; a negative \<open>n\<close> counts from the end.\<close>
  "py_take n xs = (if n \<ge> 0 then take (nat n) xs else take (nat (int (length xs) + n)) xs)"

text \<open>
  Python does not specify the order in which a \<^verbatim>\<open>set\<close> is iterated. The sets of log ids
  \<^verbatim>\<open>cand_ids\<close> and \<^verbatim>\<open>dedup_ids\<close> are iterated, and the order decides which of two
  candidates with equal timestamps a message keeps and how items with equal keys are
  ordered. The first argument of the model stands for that order: it maps the list of
  the elements put into a set to the list in which the set is iterated.
\<close>

definition set_iteration :: "(int list \<Rightarrow> int list) \<Rightarrow> bool" where
  \<comment> \<open>What every iteration order satisfies: it lists each element of the set once.\<close>
  "set_iteration ord = (\<forall>xs. set (ord xs) = set xs \<and> distinct (ord xs))"

definition cand_ids_of :: "(int list \<Rightarrow> int list) \<Rightarrow> RecallConfig \<Rightarrow> DynamicLogEntityGraph \<Rightarrow> int \<Rightarrow> int list" where
  \<comment> \<open>\<^verbatim>\<open>cand_ids = set(cand_dist_struct.keys()) | set(cand_dist_time.keys())\<close>\<close>
  "cand_ids_of ord cfg g target_log_id =
     ord (map fst (fst (struct_candidates cfg g target_log_id)) @ map fst (time_candidates cfg g target_log_id))"

definition dual_path_retrieve :: "(int list \<Rightarrow> int list) \<Rightarrow> RecallConfig \<Rightarrow> DynamicLogEntityGraph \<Rightarrow> int
    \<Rightarrow> EvidenceItem list" where
  "dual_path_retrieve ord cfg g target_log_id =
     (case get_log g target_log_id of
        None \<Rightarrow> []
      | Some tgt \<Rightarrow>
          (case struct_candidates cfg g target_log_id of
             (cand_dist_struct, shared) \<Rightarrow>
               let cand_dist_time = time_candidates cfg g target_log_id;
                   cand_ids = cand_ids_of ord cfg g target_log_id;
                   msg2best = fold (dedup_step cfg g) cand_ids [];
                   dedup_ids = ord (map snd msg2best);
                   items = concat (map (\<lambda>lid. case get_log g lid of
                                                None \<Rightarrow> []
                                              | Some nd \<Rightarrow> [make_item cfg g target_log_id tgt
                                                              cand_dist_struct shared cand_dist_time lid nd])
                                    dedup_ids)
               in py_take (evidence_budget_nmax cfg) (sort_desc items)))"

section \<open>packaging.py\<close>

fun str_nat :: "nat \<Rightarrow> string" where
  "str_nat n = (if n < 10 then [char_of (48 + n)] else str_nat (n div 10) @ [char_of (48 + n mod 10)])"

declare str_nat.simps [simp del]

definition str_int :: "int \<Rightarrow> string" where
  \<comment> \<open>\<^verbatim>\<open>str(i)\<close>, and an integer in an f-string\<close>
  "str_int i = (if i < 0 then CHR ''-'' # str_nat (nat (- i)) else str_nat (nat i))"

fun join :: "string \<Rightarrow> string list \<Rightarrow> string" where
  \<comment> \<open>\<^verbatim>\<open>sep.join(xs)\<close>\<close>
  "join sep [] = []"
| "join sep [x] = x"
| "join sep (x # y # ys) = x @ sep @ join sep (y # ys)"

definition round6 :: "real \<Rightarrow> real" where
  \<comment> \<open>\<^verbatim>\<open>round(w, 6)\<close> on the idealised reals (ties are rounded up here; Python rounds the
      binary value of the float).\<close>
  "round6 w = real_of_int (round (w * 10 ^ 6)) / 10 ^ 6"

definition lookup :: "('k \<times> 'v) list \<Rightarrow> 'k \<Rightarrow> 'v" where
  \<comment> \<open>\<^verbatim>\<open>d[k]\<close> for a key that the code has put into \<open>d\<close> before: in \<^verbatim>\<open>build_evidence_pack\<close>
      every log id that is looked up comes from \<^verbatim>\<open>ordered_log_ids\<close>, whose elements are
      the keys of \<^verbatim>\<open>id_map_logs\<close>, and every entity that is looked up has passed the test
      \<^verbatim>\<open>e in id_map_entities\<close>.\<close>
  "lookup d k = the (map_of d k)"

datatype gp_node =
    LogJ string int int          \<comment> \<open>\<^verbatim>\<open>{'id', 'type': 'log', 'timestamp', 'severity'}\<close>\<close>
  | EntJ string string string    \<comment> \<open>\<^verbatim>\<open>{'id', 'type': 'entity', 'entity_type', 'value'}\<close>\<close>

record gp_edge =
  edge_id :: string              \<comment> \<open>\<^verbatim>\<open>'id'\<close>\<close>
  edge_type :: string            \<comment> \<open>\<^verbatim>\<open>'type'\<close>\<close>
  source :: string
  target :: string
  weight :: real

record GraphPack =
  nodes :: "gp_node list"
  edges :: "gp_edge list"
  summary :: "string list"

record EvidencePack =
  textpack :: string
  graphpack :: GraphPack         \<comment> \<open>the dictionary that \<^verbatim>\<open>json.dumps\<close> turns into \<^verbatim>\<open>graphpack_json\<close>\<close>
  id_map_logs :: "(int \<times> string) list"
  id_map_entities :: "(string \<times> string) list"

definition enumerate1 :: "'a list \<Rightarrow> (nat \<times> 'a) list" where
  \<comment> \<open>\<^verbatim>\<open>enumerate(xs, start=1)\<close>\<close>
  "enumerate1 xs = zip [1 ..< Suc (length xs)] xs"

definition struct_edge_step :: "RecallConfig \<Rightarrow> DynamicLogEntityGraph \<Rightarrow> int
    \<Rightarrow> (int \<times> string) list \<Rightarrow> (string \<times> string) list \<Rightarrow> int \<Rightarrow> string
    \<Rightarrow> gp_edge list \<times> nat \<Rightarrow> gp_edge list \<times> nat" where
  \<comment> \<open>One round of \<^verbatim>\<open>for e in sorted(g.get_entities_for_log(lid))\<close>, on \<^verbatim>\<open>edges\<close> and
      \<^verbatim>\<open>rel_id\<close>.\<close>
  "struct_edge_step cfg g now_ts idl ide lid e st =
     (case st of
        (es, rel_id) \<Rightarrow>
          if map_of ide e = None then st
          else
            let w = structural_edge_weight g lid e now_ts in
            if w < theta_w cfg then st
            else (es @ [\<lparr> edge_id = ''R'' @ str_nat rel_id, edge_type = ''struct'',
                          source = lookup idl lid, target = lookup ide e, weight = round6 w \<rparr>],
                  rel_id + 1))"

definition time_edge_step :: "RecallConfig \<Rightarrow> DynamicLogEntityGraph \<Rightarrow> int
    \<Rightarrow> (int \<times> string) list \<Rightarrow> int list \<Rightarrow> int
    \<Rightarrow> gp_edge list \<times> nat \<Rightarrow> gp_edge list \<times> nat" where
  \<comment> \<open>One round of the second \<^verbatim>\<open>for lid in ordered_log_ids\<close>.\<close>
  "time_edge_step cfg g now_ts idl ordered_log_ids lid st =
     (case st of
        (es, rel_id) \<Rightarrow>
          (case get_log g lid of
             None \<Rightarrow> st
           | Some nd \<Rightarrow>
               (case next_log_id nd of
                  None \<Rightarrow> st
                | Some nxt \<Rightarrow>
                    if nxt \<notin> set ordered_log_ids then st
                    else
                      let w = temporal_edge_weight g lid nxt now_ts in
                      if w < theta_w cfg then st
                      else (es @ [\<lparr> edge_id = ''R'' @ str_nat rel_id, edge_type = ''time'',
                                    source = lookup idl lid, target = lookup idl nxt, weight = round6 w \<rparr>],
                            rel_id + 1))))"

definition summary_of :: "RecallConfig \<Rightarrow> DynamicLogEntityGraph \<Rightarrow> int
    \<Rightarrow> (int \<times> string) list \<Rightarrow> (string \<times> string) list \<Rightarrow> EvidenceItem \<Rightarrow> string list" where
  \<comment> \<open>What one round of the last \<^verbatim>\<open>for it in evidence\<close> appends to \<^verbatim>\<open>summary\<close>.\<close>
  "summary_of cfg g target_log_id idl ide it =
     (let tgt_ents = get_entities_for_log g target_log_id;
          shared = sort (filter (\<lambda>e. e \<in> set (get_entities_for_log g (e_log_id it))) tgt_ents)
      in (if shared \<noteq> []
          then [lookup idl (e_log_id it) @ '' shares entities '' @
                join '', '' (map (lookup ide) (filter (\<lambda>e. map_of ide e \<noteq> None) shared)) @ '' with L0'']
          else []) @
         (case time_offset it of
            None \<Rightarrow> []
          | Some off \<Rightarrow>
              if \<bar>off\<bar> \<le> temporal_k cfg
              then [lookup idl (e_log_id it) @ '' is within K-step temporal context of L0 (offset '' @
                    str_int off @ ''s)'']
              else []))"

definition build_evidence_pack :: "RecallConfig \<Rightarrow> DynamicLogEntityGraph \<Rightarrow> int \<Rightarrow> EvidenceItem list
    \<Rightarrow> string + EvidencePack" where
  \<comment> \<open>\<open>Inl\<close> is the \<^verbatim>\<open>ValueError\<close> with its message.\<close>
  "build_evidence_pack cfg g target_log_id evidence =
     (case get_log g target_log_id of
        None \<Rightarrow> Inl (''target_log_id not found: '' @ str_int target_log_id)
      | Some tgt \<Rightarrow>
          let idl = fold (\<lambda>(i, it) m. AList.update (e_log_id it) (''L'' @ str_nat i) m)
                      (enumerate1 evidence) [(target_log_id, ''L0'')];
              ent_set = fold (\<lambda>lid s. fold (\<lambda>e s. set_add s e) (get_entities_for_log g lid) s)
                          (map fst idl) [];
              ide = fold (\<lambda>(i, e) m. AList.update e (''E'' @ str_nat i) m) (enumerate1 (sort ent_set)) [];
              ordered_log_ids = target_log_id # map e_log_id evidence;
              text_log_ids = map e_log_id evidence;
              lines = ''=== TEXT EVIDENCE (TextPack) ==='' #
                concat (map (\<lambda>lid. case get_log g lid of
                                     None \<Rightarrow> []
                                   | Some nd \<Rightarrow> [lookup idl lid @ '': ts='' @ str_int (ts_sec nd) @
                                                '' severity='' @ str_int (severity nd) @ '' '' @ message nd])
                        text_log_ids);
              log_nodes = concat (map (\<lambda>lid. case get_log g lid of
                                               None \<Rightarrow> []
                                             | Some nd \<Rightarrow> [LogJ (lookup idl lid) (ts_sec nd) (severity nd)])
                                  ordered_log_ids);
              ent_nodes = map (\<lambda>(e, eid). EntJ eid (classify_entity_type e) e) ide;
              now_ts = ts_sec tgt;
              st = fold (\<lambda>lid st. fold (struct_edge_step cfg g now_ts idl ide lid)
                                     (sort (get_entities_for_log g lid)) st)
                     ordered_log_ids ([], 1);
              st = fold (time_edge_step cfg g now_ts idl ordered_log_ids) ordered_log_ids st;
              summ = concat (map (summary_of cfg g target_log_id idl ide) evidence)
          in Inr \<lparr> textpack = join [CHR 0x0A] lines,
                   graphpack = \<lparr> nodes = log_nodes @ ent_nodes, edges = fst st, summary = take 50 summ \<rparr>,
                   id_map_logs = idl, id_map_entities = ide \<rparr>)"

section \<open>pipeline.py\<close>

text \<open>
  One round of the loop of \<^verbatim>\<open>RecallPipeline.process\<close>. The call of the language model
  and the parsing of its answer are external: the fields \<^verbatim>\<open>prediction\<close> and
  \<^verbatim>\<open>prompt_len\<close> of the output are left out, and so is \<^verbatim>\<open>build_prompt\<close>, which only
  formats the pack (it raises on the condition on which \<^verbatim>\<open>build_evidence_pack\<close> has
  raised before it). The metrics are outside the core.
\<close>

record LogRecord =
  r_log_id :: int                     \<comment> \<open>\<^verbatim>\<open>log_id\<close>\<close>
  r_ts_sec :: int                     \<comment> \<open>\<^verbatim>\<open>ts_sec\<close>\<close>
  r_message :: string                 \<comment> \<open>\<^verbatim>\<open>message\<close>\<close>
  true_label :: int

record Retrieval =
  evidence_count :: int
  evidence_log_ids :: "int list"

record Output =
  o_log_id :: int                     \<comment> \<open>\<^verbatim>\<open>'log_id'\<close>\<close>
  o_timestamp :: int                  \<comment> \<open>\<^verbatim>\<open>'timestamp'\<close>\<close>
  o_message :: string                 \<comment> \<open>\<^verbatim>\<open>'message'\<close>\<close>
  o_true_label :: int                 \<comment> \<open>\<^verbatim>\<open>'true_label'\<close>\<close>
  o_triggered :: bool                 \<comment> \<open>\<^verbatim>\<open>'triggered'\<close>\<close>
  trigger_by :: string
  o_severity :: int                   \<comment> \<open>\<^verbatim>\<open>'severity'\<close>\<close>
  entities_stat :: "string list"
  entities_stat_validated :: "string list"
  entities_sem :: "string list"
  entities_final :: "string list"
  retrieval :: "Retrieval option"     \<comment> \<open>present when triggered\<close>

record RecallPipeline =
  p_cfg :: RecallConfig
  graph :: DynamicLogEntityGraph
  stat_extractor :: StatisticalEntityExtractor
  semantic_extractor :: "semantic_answer option"
  trigger :: TriggerEngine

definition new_RecallPipeline :: "RecallConfig \<Rightarrow> semantic_answer \<Rightarrow> RecallPipeline" where
  \<comment> \<open>The second argument is the collaborator behind the semantic channel; the pipeline
      has a semantic extractor only when the channel is enabled.\<close>
  "new_RecallPipeline cfg answer =
     \<lparr> p_cfg = cfg,
       graph = new_DynamicLogEntityGraph cfg,
       stat_extractor = new_StatisticalEntityExtractor cfg,
       semantic_extractor = (if enable_semantic_channel cfg then Some answer else None),
       trigger = new_TriggerEngine cfg \<rparr>"

definition process_record :: "(int list \<Rightarrow> int list) \<Rightarrow> RecallPipeline \<Rightarrow> LogRecord
    \<Rightarrow> string + (Output \<times> RecallPipeline)" where
  "process_record ord p rec =
     (let ts = r_ts_sec rec;
          msg = r_message rec;
          sev = severity_level (p_cfg p) msg
      in case extract_entities (p_cfg p) (stat_extractor p) ts msg (semantic_extractor p) of
           (ent_res, se) \<Rightarrow>
             let g = add_log (graph p) (r_log_id rec) ts msg (final ent_res) sev;
                 g = tick g ts
             in case check (trigger p) ts msg of
                  (trig, te) \<Rightarrow>
                    let p' = p\<lparr> graph := g, stat_extractor := se, trigger := te \<rparr>;
                        out = \<lparr> o_log_id = r_log_id rec, o_timestamp = ts, o_message = msg,
                                o_true_label = true_label rec, o_triggered = triggered trig,
                                trigger_by = trig_by trig, o_severity = sev,
                                entities_stat = sort (estat ent_res),
                                entities_stat_validated = sort (estat_validated ent_res),
                                entities_sem = sort (esem ent_res),
                                entities_final = sort (final ent_res),
                                retrieval = None \<rparr>
                    in if triggered trig then
                         (let evidence_items = dual_path_retrieve ord (p_cfg p) g (r_log_id rec)
                          in case build_evidence_pack (p_cfg p) g (r_log_id rec) evidence_items of
                               Inl err \<Rightarrow> Inl err
                             | Inr pack \<Rightarrow>
                                 Inr (out\<lparr> retrieval := Some \<lparr> evidence_count = int (length evidence_items),
                                                               evidence_log_ids = map e_log_id evidence_items \<rparr> \<rparr>,
                                      p'))
                       else Inr (out, p'))"

fun process_loop :: "(int list \<Rightarrow> int list) \<Rightarrow> RecallPipeline \<Rightarrow> LogRecord list
    \<Rightarrow> string + (Output list \<times> RecallPipeline)" where
  "process_loop ord p [] = Inr ([], p)"
| "process_loop ord p (rec # recs) =
     (case process_record ord p rec of
        Inl err \<Rightarrow> Inl err
      | Inr (out, p') \<Rightarrow>
          (case process_loop ord p' recs of
             Inl err \<Rightarrow> Inl err
           | Inr (outs, p'') \<Rightarrow> Inr (out # outs, p'')))"

definition process :: "(int list \<Rightarrow> int list) \<Rightarrow> RecallPipeline \<Rightarrow> LogRecord list \<Rightarrow> int option
    \<Rightarrow> string + (Output list \<times> RecallPipeline)" where
  \<comment> \<open>\<^verbatim>\<open>RecallPipeline.process\<close>: the predictions and the pipeline after the run.\<close>
  "process ord p records max_logs =
     process_loop ord p (case max_logs of None \<Rightarrow> records | Some m \<Rightarrow> take (nat m) records)"

chapter \<open>Properties\<close>

section \<open>The burst detector and the trigger engine\<close>

definition run_pushes :: "TemplateBurstDetector \<Rightarrow> (int \<times> string) list \<Rightarrow> TemplateBurstDetector" where
  \<comment> \<open>The detector after a sequence of calls \<^verbatim>\<open>push_and_check(ts, key)\<close>.\<close>
  "run_pushes det xs = fold (\<lambda>(ts, key) d. snd (push_and_check d ts key)) xs det"

lemma bd_evict_ema: "ema (bd_evict det now) = ema det"
  by (simp add: bd_evict_def split: prod.splits)

lemma push_and_check_ema_other:
  "k \<noteq> key \<Longrightarrow> ema (snd (push_and_check det ts key)) k = ema det k"
  by (simp add: push_and_check_def Let_def bd_evict_ema)

lemma run_pushes_ema_unseen:
  "key \<notin> snd ` set xs \<Longrightarrow> ema (run_pushes det xs) key = ema det key"
proof (induction xs arbitrary: det)
  case Nil
  then show ?case by (simp add: run_pushes_def)
next
  case (Cons x xs)
  obtain ts k where x: "x = (ts, k)" by (cases x)
  from Cons.prems x have ne: "key \<noteq> k" and rest: "key \<notin> snd ` set xs" by auto
  have "run_pushes det (x # xs) = run_pushes (snd (push_and_check det ts k)) xs"
    by (simp add: run_pushes_def x)
  with Cons.IH[OF rest] ne show ?case
    by (simp add: push_and_check_ema_other)
qed

lemma push_and_check_fresh:
  assumes "ema det key = None"
  shows "fst (push_and_check det ts key) = False"
  using assms
  by (simp add: push_and_check_def Let_def bd_evict_ema ema_of_def ema_step_def)

lemma push_and_check_fresh_state:
  assumes "ema det key = None" "key \<noteq> []"
  shows "ema (snd (push_and_check det ts key)) key =
    Some \<lparr> mean = real_of_int (count_of (win_counts (snd (push_and_check det ts key))) key),
           var = 0, initialized = True \<rparr>"
  using assms
  by (simp add: push_and_check_def Let_def bd_evict_ema ema_of_def ema_step_def)

text \<open>
  C9. On the first observation of a template key, that is, when the key is pushed into a
  detector that was created with any window, smoothing factor and sigma and has seen any
  sequence of other keys, \<^verbatim>\<open>push_and_check\<close> returns false; and, the key being non-empty,
  it leaves the statistics of the key initialised to \<open>mean = x\<close>, \<open>var = 0\<close>, where \<open>x\<close>
  is the count of the key in the window.
\<close>

theorem push_and_check_first_observation:
  assumes "key \<notin> snd ` set xs"
  shows "fst (push_and_check (run_pushes (new_TemplateBurstDetector w a sg) xs) ts key) = False \<and>
    (key \<noteq> [] \<longrightarrow>
      ema (snd (push_and_check (run_pushes (new_TemplateBurstDetector w a sg) xs) ts key)) key =
      Some \<lparr> mean = real_of_int (count_of (win_counts
                (snd (push_and_check (run_pushes (new_TemplateBurstDetector w a sg) xs) ts key))) key),
             var = 0, initialized = True \<rparr>)"
proof -
  have "ema (run_pushes (new_TemplateBurstDetector w a sg) xs) key = None"
    using run_pushes_ema_unseen[OF assms] by (simp add: new_TemplateBurstDetector_def)
  then show ?thesis
    using push_and_check_fresh push_and_check_fresh_state by blast
qed

lemma first_observation_example:
  "snd (push_and_check (run_pushes (new_TemplateBurstDetector 300 (1 / 100) 3) [(1000, ''a'')]) 1001 ''b'')
   = \<lparr> bd_window_sec = 300, ema_alpha = 1 / 100, sigma = 3,
       bd_q = [(1000, ''a''), (1001, ''b'')],
       win_counts = [''a'' \<mapsto> 1, ''b'' \<mapsto> 1],
       ema = [''a'' \<mapsto> \<lparr> mean = 1, var = 0, initialized = True \<rparr>,
              ''b'' \<mapsto> \<lparr> mean = 1, var = 0, initialized = True \<rparr>] \<rparr>"
  by (simp add: run_pushes_def push_and_check_def new_TemplateBurstDetector_def bd_evict_def
      count_of_def ema_of_def ema_step_def Let_def)

theorem push_and_check_first_observation_witness:
  "fst (push_and_check (run_pushes (new_TemplateBurstDetector 300 (1 / 100) 3) [(1000, ''a'')]) 1001 ''b'') = False \<and>
   ema (snd (push_and_check (run_pushes (new_TemplateBurstDetector 300 (1 / 100) 3) [(1000, ''a'')]) 1001 ''b'')) ''b''
     = Some \<lparr> mean = 1, var = 0, initialized = True \<rparr>"
proof -
  have unseen: "''b'' \<notin> snd ` set [(1000 :: int, ''a'')]" by simp
  show ?thesis
    using push_and_check_first_observation[OF unseen, of 300 "1 / 100" 3 1001]
    by (simp add: first_observation_example count_of_def)
qed

text \<open>
  C10. When the severity trigger is enabled and some trigger keyword occurs in the
  lowercased message, \<^verbatim>\<open>TriggerEngine.check\<close> answers \<open>triggered\<close>, \<open>by = severity\<close>,
  without a template key, and the engine after the call is the engine before it: the
  window, the counts and the statistics of the burst detector are unchanged.
\<close>

theorem check_severity_frame:
  assumes "enable_severity_trigger (te_cfg te)"
    and "\<exists>kw \<in> set (trigger_keywords (te_cfg te)). contains (lower msg) kw"
  shows "check te ts msg = (\<lparr> triggered = True, trig_by = ''severity'', template_key = None \<rparr>, te)"
  using assms by (simp add: check_def list_ex_iff)

theorem check_severity_frame_witness:
  "check (new_TriggerEngine default_config) 1000 ''fatal error on node-7''
   = (\<lparr> triggered = True, trig_by = ''severity'', template_key = None \<rparr>, new_TriggerEngine default_config)"
proof -
  have a: "enable_severity_trigger (te_cfg (new_TriggerEngine default_config))"
    by (simp add: new_TriggerEngine_def default_config_def)
  have "contains (lower ''fatal error on node-7'') ''fatal''" by code_simp
  then have b: "\<exists>kw \<in> set (trigger_keywords (te_cfg (new_TriggerEngine default_config))).
      contains (lower ''fatal error on node-7'') kw"
    by (simp add: new_TriggerEngine_def default_config_def)
  show ?thesis using check_severity_frame[OF a b] .
qed

section \<open>The token filter\<close>

lemma search_from_Bol_later:
  "search_from (Then Bol r) (Some c) s = False"
  by (induction s arbitrary: c) (simp_all add: match_len_def)

lemma token_drop_regex_default_unfold:
  "\<exists>r. token_drop_regex_default = Then Bol (Then (One (Lit BS)) r)"
  by (simp add: token_drop_regex_default_def seq_def)

lemma token_drop_needs_backslash:
  assumes "tok \<noteq> []" "hd tok \<noteq> BS"
  shows "\<not> should_drop_token default_config tok"
proof -
  obtain c s where tok: "tok = c # s" using assms(1) by (cases tok) auto
  obtain r where td: "token_drop_regex_default = Then Bol (Then (One (Lit BS)) r)"
    using token_drop_regex_default_unfold by blast
  show ?thesis
    using assms(2) unfolding tok should_drop_token_def
    by (simp add: default_config_def rx_search_def td search_from_Bol_later match_len_def)
qed

lemma token_drop_matches_backslashed:
  "should_drop_token default_config
     ([BS] @ ''dddd-'' @ [BS] @ ''dd-'' @ [BS] @ ''dd-'' @ [BS] @ ''dd'' @ [BS] @ ''.'' @ [BS] @ ''dd''
      @ [BS] @ ''.'' @ [BS] @ ''dd'' @ [BS] @ ''.'' @ [BS] @ ''d'')"
  by code_simp

definition timestamp_run :: "string list" where
  \<comment> \<open>The statistical extractor on three records, one second apart, that end in the same
      dotted timestamp: what the third call of \<^verbatim>\<open>extract\<close> returns.\<close>
  "timestamp_run =
     (let se = new_StatisticalEntityExtractor default_config;
          se = snd (stat_extract se 1000 ''job started at 2005-06-03-15.42.50.363779'');
          se = snd (stat_extract se 1001 ''job running at 2005-06-03-15.42.50.363779'')
      in fst (stat_extract se 1002 ''job failed at 2005-06-03-15.42.50.363779''))"

text \<open>
  C4. The claim is that every dotted timestamp matches the default \<^verbatim>\<open>token_drop_regex\<close>.
  The code does otherwise: the default pattern asks for a backslash as the first
  character (lemma \<open>token_drop_needs_backslash\<close>), so \<^verbatim>\<open>should_drop_token\<close> is false on
  the token \<^verbatim>\<open>2005-06-03-15.42.50.363779\<close>, and once the token has occurred in three
  records of the window the extractor returns it as an entity.
\<close>

theorem dotted_timestamp_not_dropped:
  "\<not> should_drop_token default_config ''2005-06-03-15.42.50.363779'' \<and>
   timestamp_run = [''2005-06-03-15.42.50.363779'']"
proof
  show "\<not> should_drop_token default_config ''2005-06-03-15.42.50.363779''"
    by code_simp
  show "timestamp_run = [''2005-06-03-15.42.50.363779'']"
    by code_simp
qed

section \<open>Template masking\<close>

lemma mask_5: "mask_for_template_key ''5'' = ''<NUM>''"
  by code_simp

lemma mask_mask_5: "mask_for_template_key (mask_for_template_key ''5'') = ''<num>''"
  by code_simp

theorem mask_not_idempotent:
  "\<not> (\<forall>msg. mask_for_template_key (mask_for_template_key msg) = mask_for_template_key msg)"
proof
  assume h: "\<forall>msg. mask_for_template_key (mask_for_template_key msg) = mask_for_template_key msg"
  have "''<num>'' = mask_for_template_key (mask_for_template_key ''5'')"
    by (rule mask_mask_5[symmetric])
  also have "\<dots> = mask_for_template_key ''5''"
    using h by blast
  also have "\<dots> = ''<NUM>''"
    by (rule mask_5)
  finally show False by simp
qed

section \<open>Scenario S1\<close>

definition s1_config :: RecallConfig where
  \<comment> \<open>\<open>T = 900\<close>, \<open>k = 3\<close>, \<open>n_max = 5\<close>, \<open>theta_w = 0.05\<close>, \<open>decay_lambda\<close> unset, the other
      options at their defaults.\<close>
  "s1_config = default_config\<lparr> temporal_k := 3, evidence_budget_nmax := 5 \<rparr>"

definition s1_record :: LogRecord where
  "s1_record = \<lparr> r_log_id = 1, r_ts_sec = 1000, r_message = ''fatal error on node-7'', true_label = 1 \<rparr>"

definition s1_graph :: DynamicLogEntityGraph where
  \<comment> \<open>The graph after the record of S1.\<close>
  "s1_graph = \<lparr> g_cfg = s1_config, step = 1,
     logs = [1 \<mapsto> \<lparr> log_id = 1, ts_sec = 1000, message = ''fatal error on node-7'', severity = 3,
                    prev_log_id = None, next_log_id = None \<rparr>],
     entities = [], log_to_entities = [1 \<mapsto> []], entity_to_logs = Map.empty,
     log_window = [1], last_log_id = Some 1 \<rparr>"

lemma set_iteration_Nil: "set_iteration ord \<Longrightarrow> ord [] = []"
  by (metis set_iteration_def set_empty)

lemma set_iteration_remdups: "set_iteration remdups"
  by (simp add: set_iteration_def)

lemma s1_tokens:
  "tokenize_for_entity_candidates ''fatal error on node-7'' = [''fatal'', ''error'', ''on'', ''node-7'']"
  by code_simp

lemma s1_node7_complexity: "token_complexity ''node-7'' False = 2"
  by code_simp

lemma s1_extract:
  "fst (stat_extract (new_StatisticalEntityExtractor s1_config) 1000 ''fatal error on node-7'') = []"
  by code_simp

lemma s1_sev: "severity_level s1_config ''fatal error on node-7'' = 3"
  by code_simp

lemma s1_ents:
  "fst (extract_entities s1_config (new_StatisticalEntityExtractor s1_config) 1000 ''fatal error on node-7'' None)
   = \<lparr> estat = [], esem = [], final = [], estat_validated = [] \<rparr>"
  by (simp add: extract_entities_def split_beta s1_extract set_union_def Let_def)

lemma s1_prune_cutoff:
  assumes "g_cfg g = s1_config"
  shows "prune_cutoff g now = Some (now - 900)"
proof -
  have l: "lambda g = - ln (5 / 100) / 900"
    using assms by (simp add: lambda_def s1_config_def default_config_def)
  have neg: "ln (5 / 100 :: real) < 0" by simp
  then have pos: "lambda g > 0" using l by simp
  have "- ln (5 / 100 :: real) / lambda g = 900" using l neg by simp
  then show ?thesis
    using pos assms by (simp add: prune_cutoff_def Let_def s1_config_def default_config_def)
qed

lemma s1_add_log:
  "add_log (new_DynamicLogEntityGraph s1_config) 1 1000 ''fatal error on node-7'' [] 3 = s1_graph"
  by (simp add: add_log_def new_DynamicLogEntityGraph_def s1_graph_def Let_def)

lemma s1_tick: "tick s1_graph 1000 = s1_graph"
proof -
  have c: "g_cfg s1_graph = s1_config" by (simp add: s1_graph_def)
  have e: "evict_logs s1_graph 1000 = s1_graph"
    by (simp add: evict_logs_def s1_graph_def s1_config_def default_config_def)
  have p: "prune_edges s1_graph 1000 = s1_graph"
    unfolding prune_edges_def s1_prune_cutoff[OF c]
    by (simp add: s1_graph_def prune_log_edges_def detach_log_def)
  have a: "prune_entities_by_activity s1_graph = s1_graph"
    by (simp add: prune_entities_by_activity_def s1_graph_def s1_config_def default_config_def)
  show ?thesis by (simp add: tick_def e p a)
qed

lemma s1_check:
  "check (new_TriggerEngine s1_config) 1000 ''fatal error on node-7''
   = (\<lparr> triggered = True, trig_by = ''severity'', template_key = None \<rparr>, new_TriggerEngine s1_config)"
proof -
  have "contains (lower ''fatal error on node-7'') ''fatal''" by code_simp
  then show ?thesis
    by (simp add: check_def new_TriggerEngine_def s1_config_def default_config_def)
qed

lemma s1_retrieve:
  assumes "set_iteration ord"
  shows "dual_path_retrieve ord s1_config s1_graph 1 = []"
proof -
  have s: "struct_candidates s1_config s1_graph 1 = ([], [])"
    by (simp add: struct_candidates_def get_entities_for_log_def s1_graph_def)
  have t: "time_candidates s1_config s1_graph 1 = []"
    by (simp add: time_candidates_def s1_config_def default_config_def get_log_def s1_graph_def
        eval_nat_numeral)
  have c: "cand_ids_of ord s1_config s1_graph 1 = []"
    by (simp add: cand_ids_of_def s t set_iteration_Nil[OF assms])
  have "\<exists>nd. get_log s1_graph 1 = Some nd"
    by (simp add: get_log_def s1_graph_def)
  then obtain nd where nd: "get_log s1_graph 1 = Some nd" by blast
  show ?thesis
    unfolding dual_path_retrieve_def nd
    by (simp add: s t c set_iteration_Nil[OF assms] py_take_def sort_desc_def)
qed

lemma s1_pack: "\<exists>pack. build_evidence_pack s1_config s1_graph 1 [] = Inr pack"
  by (simp add: build_evidence_pack_def get_log_def s1_graph_def Let_def)

lemma s1_process:
  assumes "set_iteration ord"
  shows "map_sum id fst (process_record ord (new_RecallPipeline s1_config answer) s1_record)
    = Inr \<lparr> o_log_id = 1, o_timestamp = 1000, o_message = ''fatal error on node-7'',
            o_true_label = 1, o_triggered = True, trigger_by = ''severity'', o_severity = 3,
            entities_stat = [], entities_stat_validated = [], entities_sem = [],
            entities_final = [],
            retrieval = Some \<lparr> evidence_count = 0, evidence_log_ids = [] \<rparr> \<rparr>"
proof -
  obtain pack where pk: "build_evidence_pack s1_config s1_graph 1 [] = Inr pack"
    using s1_pack by blast
  show ?thesis
    unfolding process_record_def
    by (simp add: Let_def split_beta new_RecallPipeline_def s1_record_def s1_ents s1_sev
        s1_add_log s1_tick s1_check s1_retrieve[OF assms] pk s1_config_def[symmetric])
       (simp add: s1_config_def default_config_def)
qed

text \<open>
  C1, as the code has it. For the single record \<open>(1, 1000, "fatal error on node-7", 1)\<close>
  processed by a new pipeline under the configuration of scenario S1, whatever the
  iteration order of sets and whatever the semantic collaborator, the output has
  \<open>triggered = true\<close>, \<open>trigger_by = "severity"\<close>, \<open>severity = 3\<close>, an empty retrieval
  result, and all four entity fields empty: the token \<^verbatim>\<open>node-7\<close> has complexity 2 and has
  been seen in one record, and the extractor asks for a complexity above \<open>theta_tc = 2\<close>
  and a recurrence above \<open>theta_rf = 2\<close>.
\<close>

theorem s1_output:
  assumes "set_iteration ord"
  shows "map_sum id fst (process_record ord (new_RecallPipeline s1_config answer) s1_record)
    = Inr \<lparr> o_log_id = 1, o_timestamp = 1000, o_message = ''fatal error on node-7'',
            o_true_label = 1, o_triggered = True, trigger_by = ''severity'', o_severity = 3,
            entities_stat = [], entities_stat_validated = [], entities_sem = [],
            entities_final = [],
            retrieval = Some \<lparr> evidence_count = 0, evidence_log_ids = [] \<rparr> \<rparr>"
  using assms by (rule s1_process)

theorem s1_output_witness:
  "map_sum id fst (process_record remdups (new_RecallPipeline s1_config (\<lambda>m c. ([], [], []))) s1_record)
    = Inr \<lparr> o_log_id = 1, o_timestamp = 1000, o_message = ''fatal error on node-7'',
            o_true_label = 1, o_triggered = True, trigger_by = ''severity'', o_severity = 3,
            entities_stat = [], entities_stat_validated = [], entities_sem = [],
            entities_final = [],
            retrieval = Some \<lparr> evidence_count = 0, evidence_log_ids = [] \<rparr> \<rparr>"
  using s1_output[OF set_iteration_remdups] .

text \<open>
  The claim C1 as it is stated, with \<^verbatim>\<open>node-7\<close> among the extracted entities, is false at
  its own input: no entity field of the output holds \<^verbatim>\<open>node-7\<close>.
\<close>

theorem s1_node7_counterexample:
  "\<not> (case process_record remdups (new_RecallPipeline s1_config (\<lambda>m c. ([], [], []))) s1_record of
        Inl err \<Rightarrow> False
      | Inr x \<Rightarrow>
          o_triggered (fst x) \<and> trigger_by (fst x) = ''severity'' \<and> o_severity (fst x) = 3 \<and>
          (''node-7'' \<in> set (entities_stat (fst x)) \<or> ''node-7'' \<in> set (entities_stat_validated (fst x)) \<or>
           ''node-7'' \<in> set (entities_sem (fst x)) \<or> ''node-7'' \<in> set (entities_final (fst x))) \<and>
          retrieval (fst x) = Some \<lparr> evidence_count = 0, evidence_log_ids = [] \<rparr>)"
proof -
  have "map_sum id fst (process_record remdups (new_RecallPipeline s1_config (\<lambda>m c. ([], [], []))) s1_record)
    = Inr \<lparr> o_log_id = 1, o_timestamp = 1000, o_message = ''fatal error on node-7'',
            o_true_label = 1, o_triggered = True, trigger_by = ''severity'', o_severity = 3,
            entities_stat = [], entities_stat_validated = [], entities_sem = [],
            entities_final = [],
            retrieval = Some \<lparr> evidence_count = 0, evidence_log_ids = [] \<rparr> \<rparr>"
    by (rule s1_process[OF set_iteration_remdups])
  then show ?thesis
    by (cases "process_record remdups (new_RecallPipeline s1_config (\<lambda>m c. ([], [], []))) s1_record")
       auto
qed

section \<open>Edge weights and the edges of the GraphPack\<close>










definition c2_graph :: "real \<Rightarrow> DynamicLogEntityGraph" where
  \<comment> \<open>A graph with one resident log that has one entity, under the default configuration
      with the given \<open>theta_w\<close>.\<close>
  "c2_graph th = \<lparr> g_cfg = default_config\<lparr> theta_w := th \<rparr>, step = 1,
     logs = [1 \<mapsto> \<lparr> log_id = 1, ts_sec = 1000, message = ''restart of node-7'', severity = 0,
                    prev_log_id = None, next_log_id = None \<rparr>],
     entities = [(''node-7'', \<lparr> ent_value = ''node-7'', etype = ''identifier'', activity = 1,
                                last_step = 1, last_seen_ts = 1000 \<rparr>)],
     log_to_entities = [1 \<mapsto> [''node-7'']], entity_to_logs = [''node-7'' \<mapsto> [1]],
     log_window = [1], last_log_id = Some 1 \<rparr>"

lemma c2_graph_reached:
  "add_log (new_DynamicLogEntityGraph (default_config\<lparr> theta_w := th \<rparr>)) 1 1000 ''restart of node-7'' [''node-7''] 0
   = c2_graph th"
proof -
  have "\<not> is_blacklisted_entity default_config ''node-7''" by code_simp
  moreover have "is_blacklisted_entity (default_config\<lparr> theta_w := th \<rparr>) ''node-7''
      = is_blacklisted_entity default_config ''node-7''"
    by (simp add: is_blacklisted_entity_def)
  ultimately have b: "\<not> is_blacklisted_entity (default_config\<lparr> theta_w := th \<rparr>) ''node-7''"
    by blast
  have s: "strip ''node-7'' = ''node-7''" by code_simp
  have c: "classify_entity_type ''node-7'' = ''identifier''" by code_simp
  have a: "activity_alpha (default_config\<lparr> theta_w := th \<rparr>) = 1"
    by (simp add: default_config_def)
  show ?thesis
    by (simp add: add_log_def new_DynamicLogEntityGraph_def c2_graph_def Let_def clean_entity_def s b
        set_add_def add_entity_def c activate_entity_def a)
qed



section \<open>Retrieval\<close>





lemma make_item_fields:
  "e_log_id (make_item cfg g t tgt cds sh cdt lid nd) = lid"
  "e_message (make_item cfg g t tgt cds sh cdt lid nd) = message nd"
  "e_ts_sec (make_item cfg g t tgt cds sh cdt lid nd) = ts_sec nd"
  by (simp_all add: make_item_def Let_def)





lemma set_sort_desc: "set (sort_desc items) = set items"
  by (simp add: sort_desc_def)

lemma length_sort_desc: "length (sort_desc items) = length items"
  by (simp add: sort_desc_def)

lemma py_take_is_take: "\<exists>k. py_take n xs = take k xs"
  by (auto simp: py_take_def)

lemma set_py_take: "set (py_take n xs) \<subseteq> set xs"
  by (auto simp: py_take_def dest: in_set_takeD)

lemma retrieve_shape:
  "\<exists>k items. dual_path_retrieve ord cfg g t = take k (sort_desc items) \<and>
     (evidence_budget_nmax cfg \<ge> 0 \<longrightarrow> k = nat (evidence_budget_nmax cfg)) \<and>
     items = (case get_log g t of None \<Rightarrow> [] | Some tgt \<Rightarrow>
       concat (map (\<lambda>lid. case get_log g lid of
                             None \<Rightarrow> []
                           | Some nd \<Rightarrow> [make_item cfg g t tgt (fst (struct_candidates cfg g t))
                                         (snd (struct_candidates cfg g t)) (time_candidates cfg g t) lid nd])
                (ord (map snd (fold (dedup_step cfg g) (cand_ids_of ord cfg g t) [])))))"
proof -
  define items where "items = (case get_log g t of None \<Rightarrow> [] | Some tgt \<Rightarrow>
       concat (map (\<lambda>lid. case get_log g lid of
                             None \<Rightarrow> []
                           | Some nd \<Rightarrow> [make_item cfg g t tgt (fst (struct_candidates cfg g t))
                                         (snd (struct_candidates cfg g t)) (time_candidates cfg g t) lid nd])
                (ord (map snd (fold (dedup_step cfg g) (cand_ids_of ord cfg g t) [])))))"
  have r: "dual_path_retrieve ord cfg g t = py_take (evidence_budget_nmax cfg) (sort_desc items)"
    by (simp add: dual_path_retrieve_def items_def Let_def split_beta py_take_def sort_desc_def
        split: option.splits)
  obtain k where k: "py_take (evidence_budget_nmax cfg) (sort_desc items) = take k (sort_desc items)"
    and k0: "evidence_budget_nmax cfg \<ge> 0 \<longrightarrow> k = nat (evidence_budget_nmax cfg)"
    by (cases "evidence_budget_nmax cfg \<ge> 0") (simp_all add: py_take_def)
  show ?thesis
    apply (rule exI[of _ k])
    apply (rule exI[of _ items])
    apply (simp only: r k)
    apply (intro conjI)
      apply (rule refl)
     apply (rule k0)
    apply (rule items_def)
    done
qed

lemma retrieve_items_made:
  assumes "it \<in> set (dual_path_retrieve ord cfg g t)"
  shows "\<exists>tgt lid nd. get_log g t = Some tgt \<and> get_log g lid = Some nd \<and>
      lid \<in> set (ord (map snd (fold (dedup_step cfg g) (cand_ids_of ord cfg g t) []))) \<and>
      it = make_item cfg g t tgt (fst (struct_candidates cfg g t))
             (snd (struct_candidates cfg g t)) (time_candidates cfg g t) lid nd"
proof -
  from retrieve_shape[of ord cfg g t] obtain k items where
    r: "dual_path_retrieve ord cfg g t = take k (sort_desc items)" and
    i: "items = (case get_log g t of None \<Rightarrow> [] | Some tgt \<Rightarrow>
       concat (map (\<lambda>lid. case get_log g lid of
                             None \<Rightarrow> []
                           | Some nd \<Rightarrow> [make_item cfg g t tgt (fst (struct_candidates cfg g t))
                                         (snd (struct_candidates cfg g t)) (time_candidates cfg g t) lid nd])
                (ord (map snd (fold (dedup_step cfg g) (cand_ids_of ord cfg g t) [])))))"
    by (elim exE conjE)
  from assms have "it \<in> set (sort_desc items)"
    unfolding r by (rule in_set_takeD)
  then have mem: "it \<in> set items" by (simp add: set_sort_desc)
  show ?thesis
  proof (cases "get_log g t")
    case None
    with mem i show ?thesis by simp
  next
    case (Some tgt)
    with mem i obtain lid where l: "lid \<in> set (ord (map snd (fold (dedup_step cfg g) (cand_ids_of ord cfg g t) [])))"
      and it: "it \<in> set (case get_log g lid of
                             None \<Rightarrow> []
                           | Some nd \<Rightarrow> [make_item cfg g t tgt (fst (struct_candidates cfg g t))
                                         (snd (struct_candidates cfg g t)) (time_candidates cfg g t) lid nd])"
      by auto
    from it obtain nd where "get_log g lid = Some nd"
      "it = make_item cfg g t tgt (fst (struct_candidates cfg g t))
             (snd (struct_candidates cfg g t)) (time_candidates cfg g t) lid nd"
      by (cases "get_log g lid") auto
    with Some l show ?thesis by blast
  qed
qed

definition dedup_key :: "RecallConfig \<Rightarrow> string \<Rightarrow> string" where
  "dedup_key cfg m = normalize_message_for_dedup m (dedup_case_insensitive cfg)"

definition best_inv :: "RecallConfig \<Rightarrow> DynamicLogEntityGraph \<Rightarrow> int set \<Rightarrow> (string \<times> int) list \<Rightarrow> bool" where
  "best_inv cfg g seen m =
     (distinct (map fst m) \<and>
      (\<forall>k lid. map_of m k = Some lid \<longrightarrow>
         k \<noteq> [] \<and> lid \<in> seen \<and>
         (\<exists>nd. get_log g lid = Some nd \<and> dedup_key cfg (message nd) = k \<and>
            (\<forall>lid' \<in> seen. \<forall>nd'. get_log g lid' = Some nd' \<longrightarrow>
               dedup_key cfg (message nd') = k \<longrightarrow> ts_sec nd' \<le> ts_sec nd))) \<and>
      (\<forall>lid \<in> seen. \<forall>nd. get_log g lid = Some nd \<longrightarrow> dedup_key cfg (message nd) \<noteq> [] \<longrightarrow>
         map_of m (dedup_key cfg (message nd)) \<noteq> None))"

lemma best_inv_empty: "best_inv cfg g {} []"
  by (simp add: best_inv_def)

lemma best_inv_step:
  assumes "best_inv cfg g seen m"
  shows "best_inv cfg g (insert lid seen) (dedup_step cfg g lid m)"
proof (cases "get_log g lid")
  case None
  then have "dedup_step cfg g lid m = m" by (simp add: dedup_step_def)
  with assms None show ?thesis
    unfolding best_inv_def by (auto; blast)
next
  case (Some nd)
  define key where "key = dedup_key cfg (message nd)"
  show ?thesis
  proof (cases "key = []")
    case True
    then have "dedup_step cfg g lid m = m"
      by (simp add: dedup_step_def Some key_def dedup_key_def)
    with assms Some True show ?thesis
      unfolding best_inv_def key_def by (auto; metis)
  next
    case False
    note kne = False
    have d: "distinct (map fst m)" using assms by (simp add: best_inv_def)
    have upd_ok: "best_inv cfg g (insert lid seen) (AList.update key lid m)"
      if cond: "\<forall>lid' \<in> seen. \<forall>nd'. get_log g lid' = Some nd' \<longrightarrow>
               dedup_key cfg (message nd') = key \<longrightarrow> ts_sec nd' \<le> ts_sec nd"
    proof -
      have p1: "distinct (map fst (AList.update key lid m))"
        using d by (rule distinct_update)
      have p2: "\<forall>k l. map_of (AList.update key lid m) k = Some l \<longrightarrow>
         k \<noteq> [] \<and> l \<in> insert lid seen \<and>
         (\<exists>nd. get_log g l = Some nd \<and> dedup_key cfg (message nd) = k \<and>
            (\<forall>lid' \<in> insert lid seen. \<forall>nd'. get_log g lid' = Some nd' \<longrightarrow>
               dedup_key cfg (message nd') = k \<longrightarrow> ts_sec nd' \<le> ts_sec nd))"
      proof (intro allI impI)
      fix k l assume a: "map_of (AList.update key lid m) k = Some l"
      show "k \<noteq> [] \<and> l \<in> insert lid seen \<and>
         (\<exists>nd. get_log g l = Some nd \<and> dedup_key cfg (message nd) = k \<and>
            (\<forall>lid' \<in> insert lid seen. \<forall>nd'. get_log g lid' = Some nd' \<longrightarrow>
               dedup_key cfg (message nd') = k \<longrightarrow> ts_sec nd' \<le> ts_sec nd))"
      proof (cases "k = key")
        case True
        with a have "l = lid" by (simp add: update_conv')
        with True kne Some cond show ?thesis by (auto simp: key_def)
      next
        case False
        with a have "map_of m k = Some l" by (simp add: update_conv')
        with assms have b: "k \<noteq> [] \<and> l \<in> seen \<and>
         (\<exists>nd. get_log g l = Some nd \<and> dedup_key cfg (message nd) = k \<and>
            (\<forall>lid' \<in> seen. \<forall>nd'. get_log g lid' = Some nd' \<longrightarrow>
               dedup_key cfg (message nd') = k \<longrightarrow> ts_sec nd' \<le> ts_sec nd))"
          unfolding best_inv_def by blast
        with False Some show ?thesis by (auto simp: key_def)
      qed
      qed
      have p3: "\<forall>l \<in> insert lid seen. \<forall>nd'. get_log g l = Some nd' \<longrightarrow>
          dedup_key cfg (message nd') \<noteq> [] \<longrightarrow>
          map_of (AList.update key lid m) (dedup_key cfg (message nd')) \<noteq> None"
        using assms Some unfolding best_inv_def
        by (auto simp: update_conv' key_def)
      show ?thesis
        unfolding best_inv_def by (intro conjI) (rule p1 p2 p3)+
    qed
    show ?thesis
    proof (cases "map_of m key")
      case None
      then have s: "dedup_step cfg g lid m = AList.update key lid m"
        using kne by (simp add: dedup_step_def Some key_def dedup_key_def)
      have "\<forall>lid' \<in> seen. \<forall>nd'. get_log g lid' = Some nd' \<longrightarrow>
               dedup_key cfg (message nd') = key \<longrightarrow> ts_sec nd' \<le> ts_sec nd"
        using assms None kne unfolding best_inv_def by blast
      from upd_ok[OF this] s show ?thesis by simp
    next
      case (Some prev)
      with assms obtain a where a: "get_log g prev = Some a" "dedup_key cfg (message a) = key"
        and amax: "\<forall>lid' \<in> seen. \<forall>nd'. get_log g lid' = Some nd' \<longrightarrow>
               dedup_key cfg (message nd') = key \<longrightarrow> ts_sec nd' \<le> ts_sec a"
        unfolding best_inv_def by blast
      show ?thesis
      proof (cases "ts_sec nd > ts_sec a")
        case True
        then have s: "dedup_step cfg g lid m = AList.update key lid m"
          using kne Some a \<open>get_log g lid = Some nd\<close>
          by (simp add: dedup_step_def key_def dedup_key_def)
        have "\<forall>lid' \<in> seen. \<forall>nd'. get_log g lid' = Some nd' \<longrightarrow>
               dedup_key cfg (message nd') = key \<longrightarrow> ts_sec nd' \<le> ts_sec nd"
          using amax True by fastforce
        from upd_ok[OF this] s show ?thesis by simp
      next
        case False
        then have s: "dedup_step cfg g lid m = m"
          using kne Some a \<open>get_log g lid = Some nd\<close>
          by (simp add: dedup_step_def key_def dedup_key_def)
        have p2: "\<forall>k l. map_of m k = Some l \<longrightarrow> k \<noteq> [] \<and> l \<in> insert lid seen \<and>
           (\<exists>nd. get_log g l = Some nd \<and> dedup_key cfg (message nd) = k \<and>
              (\<forall>lid' \<in> insert lid seen. \<forall>nd'. get_log g lid' = Some nd' \<longrightarrow>
                 dedup_key cfg (message nd') = k \<longrightarrow> ts_sec nd' \<le> ts_sec nd))"
        proof (intro allI impI)
          fix k l assume m: "map_of m k = Some l"
          with assms have b: "k \<noteq> [] \<and> l \<in> seen \<and>
           (\<exists>nd. get_log g l = Some nd \<and> dedup_key cfg (message nd) = k \<and>
              (\<forall>lid' \<in> seen. \<forall>nd'. get_log g lid' = Some nd' \<longrightarrow>
                 dedup_key cfg (message nd') = k \<longrightarrow> ts_sec nd' \<le> ts_sec nd))"
            unfolding best_inv_def by blast
          show "k \<noteq> [] \<and> l \<in> insert lid seen \<and>
           (\<exists>nd. get_log g l = Some nd \<and> dedup_key cfg (message nd) = k \<and>
              (\<forall>lid' \<in> insert lid seen. \<forall>nd'. get_log g lid' = Some nd' \<longrightarrow>
                 dedup_key cfg (message nd') = k \<longrightarrow> ts_sec nd' \<le> ts_sec nd))"
          proof (cases "k = key")
            case True
            with m Some have "l = prev" by simp
            with b a True False \<open>get_log g lid = Some nd\<close> show ?thesis
              by (auto simp: key_def)
          next
            case False
            with b \<open>get_log g lid = Some nd\<close> show ?thesis by (auto simp: key_def)
          qed
        qed
        have p3: "\<forall>l \<in> insert lid seen. \<forall>nd'. get_log g l = Some nd' \<longrightarrow>
            dedup_key cfg (message nd') \<noteq> [] \<longrightarrow> map_of m (dedup_key cfg (message nd')) \<noteq> None"
          using assms Some \<open>get_log g lid = Some nd\<close> unfolding best_inv_def
          by (auto simp: key_def)
        show ?thesis
          unfolding s best_inv_def by (intro conjI) (rule d p2 p3)+
      qed
    qed
  qed
qed

lemma best_inv_fold:
  "best_inv cfg g seen m \<Longrightarrow> best_inv cfg g (seen \<union> set xs) (fold (dedup_step cfg g) xs m)"
proof (induction xs arbitrary: seen m)
  case Nil
  then show ?case by simp
next
  case (Cons x xs)
  from best_inv_step[OF Cons.prems, of x] have "best_inv cfg g (insert x seen) (dedup_step cfg g x m)" .
  from Cons.IH[OF this] show ?case by simp
qed


lemma dedup_table_inv:
  "best_inv cfg g (set (cand_ids_of ord cfg g t)) (fold (dedup_step cfg g) (cand_ids_of ord cfg g t) [])"
  using best_inv_fold[OF best_inv_empty, of cfg g "cand_ids_of ord cfg g t"] by simp

lemma retrieve_item_best:
  assumes ord: "set_iteration ord" and it: "it \<in> set (dual_path_retrieve ord cfg g t)"
  shows "\<exists>nd. get_log g (e_log_id it) = Some nd \<and> e_message it = message nd \<and> e_ts_sec it = ts_sec nd \<and>
     map_of (fold (dedup_step cfg g) (cand_ids_of ord cfg g t) []) (dedup_key cfg (message nd)) = Some (e_log_id it) \<and>
     dedup_key cfg (message nd) \<noteq> [] \<and> e_log_id it \<in> set (cand_ids_of ord cfg g t) \<and>
     (\<forall>lid' \<in> set (cand_ids_of ord cfg g t). \<forall>nd'. get_log g lid' = Some nd' \<longrightarrow>
         dedup_key cfg (message nd') = dedup_key cfg (message nd) \<longrightarrow> ts_sec nd' \<le> ts_sec nd)"
proof -
  define m where "m = fold (dedup_step cfg g) (cand_ids_of ord cfg g t) []"
  have inv: "best_inv cfg g (set (cand_ids_of ord cfg g t)) m"
    unfolding m_def by (rule dedup_table_inv)
  from retrieve_items_made[OF it] obtain tgt lid nd where
    nd: "get_log g lid = Some nd" and
    l: "lid \<in> set (ord (map snd m))" and
    mk: "it = make_item cfg g t tgt (fst (struct_candidates cfg g t))
             (snd (struct_candidates cfg g t)) (time_candidates cfg g t) lid nd"
    unfolding m_def by (elim exE conjE)
  have f: "e_log_id it = lid" "e_message it = message nd" "e_ts_sec it = ts_sec nd"
    by (simp_all add: mk make_item_fields)
  from l ord have "lid \<in> set (map snd m)" by (simp add: set_iteration_def)
  then obtain k where "(k, lid) \<in> set m" by auto
  moreover have "distinct (map fst m)" using inv by (simp add: best_inv_def)
  ultimately have mk': "map_of m k = Some lid" by simp
  with inv have k: "k \<noteq> [] \<and> lid \<in> set (cand_ids_of ord cfg g t) \<and>
         (\<exists>nd. get_log g lid = Some nd \<and> dedup_key cfg (message nd) = k \<and>
            (\<forall>lid' \<in> set (cand_ids_of ord cfg g t). \<forall>nd'. get_log g lid' = Some nd' \<longrightarrow>
               dedup_key cfg (message nd') = k \<longrightarrow> ts_sec nd' \<le> ts_sec nd))"
    unfolding best_inv_def by blast
  with nd have "dedup_key cfg (message nd) = k" by auto
  with k nd mk' f show ?thesis unfolding m_def[symmetric] by auto
qed

lemma retrieve_items_distinct:
  assumes ord: "set_iteration ord"
  shows "distinct (dual_path_retrieve ord cfg g t)"
proof -
  from retrieve_shape[of ord cfg g t] obtain k items where
    r: "dual_path_retrieve ord cfg g t = take k (sort_desc items)" and
    i: "items = (case get_log g t of None \<Rightarrow> [] | Some tgt \<Rightarrow>
       concat (map (\<lambda>lid. case get_log g lid of
                             None \<Rightarrow> []
                           | Some nd \<Rightarrow> [make_item cfg g t tgt (fst (struct_candidates cfg g t))
                                         (snd (struct_candidates cfg g t)) (time_candidates cfg g t) lid nd])
                (ord (map snd (fold (dedup_step cfg g) (cand_ids_of ord cfg g t) [])))))"
    by (elim exE conjE)
  have gen: "map e_log_id (concat (map (\<lambda>lid. case get_log g lid of
                             None \<Rightarrow> []
                           | Some nd \<Rightarrow> [make_item cfg g t tgt cds sh cdt lid nd]) ids))
      = filter (\<lambda>lid. get_log g lid \<noteq> None) ids" for tgt cds sh cdt ids
    by (induction ids) (auto simp: make_item_fields split: option.splits)
  have d: "distinct (ord xs)" for xs using ord by (simp add: set_iteration_def)
  have "distinct (map e_log_id items)"
  proof (cases "get_log g t")
    case None
    with i show ?thesis by simp
  next
    case (Some tgt)
    with i show ?thesis by (simp add: gen d)
  qed
  then have "distinct items" by (simp add: distinct_map)
  then have "distinct (sort_desc items)" by (simp add: sort_desc_def)
  then show ?thesis unfolding r by (rule distinct_take)
qed

lemma retrieve_key_inj:
  assumes ord: "set_iteration ord"
  shows "inj_on (\<lambda>it. dedup_key cfg (e_message it)) (set (dual_path_retrieve ord cfg g t))"
proof (rule inj_onI)
  fix a b
  assume a: "a \<in> set (dual_path_retrieve ord cfg g t)" and b: "b \<in> set (dual_path_retrieve ord cfg g t)"
    and eq: "dedup_key cfg (e_message a) = dedup_key cfg (e_message b)"
  define m where "m = fold (dedup_step cfg g) (cand_ids_of ord cfg g t) []"
  from retrieve_item_best[OF ord a, folded m_def] obtain na :: LogNode where
    na: "e_message a = message na" "map_of m (dedup_key cfg (message na)) = Some (e_log_id a)"
    by blast
  from retrieve_item_best[OF ord b, folded m_def] obtain nb :: LogNode where
    nb: "e_message b = message nb" "map_of m (dedup_key cfg (message nb)) = Some (e_log_id b)"
    by blast
  from eq na nb have ids: "e_log_id a = e_log_id b" by simp
  from retrieve_items_made[OF a] obtain tgt lid nd where
    ma: "get_log g t = Some tgt" "get_log g lid = Some nd"
      "a = make_item cfg g t tgt (fst (struct_candidates cfg g t))
             (snd (struct_candidates cfg g t)) (time_candidates cfg g t) lid nd"
    by (elim exE conjE)
  from retrieve_items_made[OF b] obtain tgt' lid' nd' where
    mb: "get_log g t = Some tgt'" "get_log g lid' = Some nd'"
      "b = make_item cfg g t tgt' (fst (struct_candidates cfg g t))
             (snd (struct_candidates cfg g t)) (time_candidates cfg g t) lid' nd'"
    by (elim exE conjE)
  from ma(3) mb(3) ids have "lid = lid'" by (simp add: make_item_fields)
  with ma mb show "a = b" by simp
qed

subsection \<open>An example graph\<close>

definition ex_cfg :: "int \<Rightarrow> RecallConfig" where
  \<comment> \<open>The default configuration with \<open>decay_lambda = 0\<close> and the given evidence budget.\<close>
  "ex_cfg n = default_config\<lparr> decay_lambda := Some 0, evidence_budget_nmax := n \<rparr>"

definition ex_node :: "int \<Rightarrow> int \<Rightarrow> string \<Rightarrow> int option \<Rightarrow> int option \<Rightarrow> LogNode" where
  "ex_node i t m p n = \<lparr> log_id = i, ts_sec = t, message = m, severity = 1, prev_log_id = p, next_log_id = n \<rparr>"

definition ex_graph :: DynamicLogEntityGraph where
  \<comment> \<open>Four resident logs without entities, chained in arrival order; the messages of logs 1
      and 2 differ in whitespace only.\<close>
  "ex_graph = \<lparr> g_cfg = ex_cfg 30, step = 4,
     logs = [1 \<mapsto> ex_node 1 1000 ''warn a'' None (Some 2),
             2 \<mapsto> ex_node 2 1001 ''warn  a'' (Some 1) (Some 3),
             3 \<mapsto> ex_node 3 1002 ''warn b'' (Some 2) (Some 4),
             4 \<mapsto> ex_node 4 1003 ''warn c'' (Some 3) None],
     entities = [], log_to_entities = [1 \<mapsto> [], 2 \<mapsto> [], 3 \<mapsto> [], 4 \<mapsto> []],
     entity_to_logs = Map.empty,
     log_window = [1, 2, 3, 4], last_log_id = Some 4 \<rparr>"

lemma ex_logs:
  "get_log ex_graph 1 = Some (ex_node 1 1000 ''warn a'' None (Some 2))"
  "get_log ex_graph 2 = Some (ex_node 2 1001 ''warn  a'' (Some 1) (Some 3))"
  "get_log ex_graph 3 = Some (ex_node 3 1002 ''warn b'' (Some 2) (Some 4))"
  "get_log ex_graph 4 = Some (ex_node 4 1003 ''warn c'' (Some 3) None)"
  by (simp_all add: get_log_def ex_graph_def)

lemma ex_node_sel:
  "prev_log_id (ex_node i t m p n) = p" "next_log_id (ex_node i t m p n) = n"
  "ts_sec (ex_node i t m p n) = t" "message (ex_node i t m p n) = m" "severity (ex_node i t m p n) = 1"
  by (simp_all add: ex_node_def)

lemma walk_cands_numeral:
  "walk_cands link g (numeral k) d cur cdt =
     (case get_log g cur of
        None \<Rightarrow> cdt
      | Some nd \<Rightarrow>
          (case link nd of
             None \<Rightarrow> cdt
           | Some c \<Rightarrow>
               walk_cands link g (pred_numeral k) (d + 1) c
                 (AList.update c (min (case map_of cdt c of None \<Rightarrow> 10 ^ 9 | Some x \<Rightarrow> x) d) cdt)))"
  by (simp add: numeral_eq_Suc)

lemma walk_prev_w_numeral:
  "walk_prev_w g src now_ts (numeral k) cur w_min =
     (if cur = src then (cur, w_min)
      else case get_log g cur of
             None \<Rightarrow> (cur, w_min)
           | Some nd \<Rightarrow>
               (case prev_log_id nd of
                  None \<Rightarrow> (cur, w_min)
                | Some prev \<Rightarrow>
                    walk_prev_w g src now_ts (pred_numeral k) prev (min w_min (temporal_edge_weight g prev cur now_ts))))"
  by (simp add: numeral_eq_Suc)

lemma walk_next_w_numeral:
  "walk_next_w g dst now_ts (numeral k) cur w_min =
     (if cur = dst then (cur, w_min)
      else case get_log g cur of
             None \<Rightarrow> (cur, w_min)
           | Some nd \<Rightarrow>
               (case next_log_id nd of
                  None \<Rightarrow> (cur, w_min)
                | Some nxt \<Rightarrow>
                    walk_next_w g dst now_ts (pred_numeral k) nxt (min w_min (temporal_edge_weight g cur nxt now_ts))))"
  by (simp add: numeral_eq_Suc)

lemma ex_struct: "struct_candidates cfg ex_graph 4 = ([], [])"
  by (simp add: struct_candidates_def get_entities_for_log_def ex_graph_def)

lemma ex_time: "time_candidates (ex_cfg n) ex_graph 4 = [(3, 1), (2, 2), (1, 3)]"
  by (simp add: time_candidates_def ex_cfg_def default_config_def walk_cands_numeral ex_logs ex_node_sel
      AList.update.simps)

lemma ex_cands: "cand_ids_of remdups (ex_cfg n) ex_graph 4 = [3, 2, 1]"
  by (simp add: cand_ids_of_def ex_struct ex_time)

lemma ex_keys:
  "normalize_message_for_dedup ''warn a'' False = ''warn a''"
  "normalize_message_for_dedup ''warn  a'' False = ''warn a''"
  "normalize_message_for_dedup ''warn b'' False = ''warn b''"
  by code_simp+

lemma ex_ci: "dedup_case_insensitive (ex_cfg n) = False"
  by (simp add: ex_cfg_def default_config_def)

lemma ex_best: "fold (dedup_step (ex_cfg n) ex_graph) [3, 2, 1] [] = [(''warn b'', 3), (''warn a'', 2)]"
  by (simp add: dedup_step_def ex_logs ex_node_sel ex_keys ex_ci AList.update.simps)

lemma ex_tw: "temporal_path_min_edge_weight ex_graph 4 lid 1003 = 0" if "lid = 3 \<or> lid = 2"
  using that
  by (auto simp: temporal_path_min_edge_weight_def walk_prev_w_numeral walk_next_w_numeral ex_logs ex_node_sel)

definition ex_item :: "int \<Rightarrow> int \<Rightarrow> string \<Rightarrow> int \<Rightarrow> real \<Rightarrow> EvidenceItem" where
  "ex_item i t m d s = \<lparr> e_log_id = i, e_ts_sec = t, e_message = m, e_severity = 1, dist = d, score = s,
      edge_weight = 0, paths = [''time''], shared_entities = [], time_offset = Some (t - 1003) \<rparr>"

lemma ex_items:
  "make_item (ex_cfg n) ex_graph 4 (ex_node 4 1003 ''warn c'' (Some 3) None) [] [] [(3, 1), (2, 2), (1, 3)] 3
     (ex_node 3 1002 ''warn b'' (Some 2) (Some 4)) = ex_item 3 1002 ''warn b'' 1 2"
  "make_item (ex_cfg n) ex_graph 4 (ex_node 4 1003 ''warn c'' (Some 3) None) [] [] [(3, 1), (2, 2), (1, 3)] 2
     (ex_node 2 1001 ''warn  a'' (Some 1) (Some 3)) = ex_item 2 1001 ''warn  a'' 2 (3 / 2)"
  by (simp_all add: make_item_def Let_def ex_node_sel ex_tw ex_item_def min_dist_def set_add_def
      ex_cfg_def default_config_def)

lemma ex_sorted:
  "sort_desc [ex_item 3 1002 ''warn b'' 1 2, ex_item 2 1001 ''warn  a'' 2 (3 / 2)]
   = [ex_item 3 1002 ''warn b'' 1 2, ex_item 2 1001 ''warn  a'' 2 (3 / 2)]"
  by (simp add: sort_desc_def ex_item_def less_eq_prod_def)

lemma ex_retrieve:
  "dual_path_retrieve remdups (ex_cfg n) ex_graph 4
   = py_take n [ex_item 3 1002 ''warn b'' 1 2, ex_item 2 1001 ''warn  a'' 2 (3 / 2)]"
proof -
  have n: "evidence_budget_nmax (ex_cfg n) = n" by (simp add: ex_cfg_def)
  have b: "dedup_step (ex_cfg n) ex_graph 1 (dedup_step (ex_cfg n) ex_graph 2 (dedup_step (ex_cfg n) ex_graph 3 []))
      = [(''warn b'', 3), (''warn a'', 2)]"
    using ex_best[of n] by simp
  show ?thesis
    unfolding dual_path_retrieve_def ex_logs ex_struct ex_time ex_cands
    by (simp add: b ex_logs ex_items ex_sorted n)
qed

subsection \<open>Budget, ranges and order\<close>




subsection \<open>Deduplication\<close>

text \<open>
  C7. In every evidence list that \<^verbatim>\<open>dual_path_retrieve\<close> returns (any configuration, graph
  state and target, any iteration order of sets), no two items have the same
  \<^verbatim>\<open>normalize_message_for_dedup\<close> key, no item has an empty key, every item is a candidate
  that the graph holds, with the message and the timestamp of its log, and no candidate
  that the graph holds with the same key has a larger \<open>ts_sec\<close>.
\<close>

theorem dual_path_retrieve_dedup:
  assumes "set_iteration ord"
  shows "distinct (map (\<lambda>it. normalize_message_for_dedup (e_message it) (dedup_case_insensitive cfg))
            (dual_path_retrieve ord cfg g t)) \<and>
    (\<forall>it \<in> set (dual_path_retrieve ord cfg g t).
       normalize_message_for_dedup (e_message it) (dedup_case_insensitive cfg) \<noteq> [] \<and>
       e_log_id it \<in> set (cand_ids_of ord cfg g t) \<and>
       (\<exists>nd. get_log g (e_log_id it) = Some nd \<and> e_message it = message nd \<and> e_ts_sec it = ts_sec nd) \<and>
       (\<forall>lid \<in> set (cand_ids_of ord cfg g t). \<forall>nd. get_log g lid = Some nd \<longrightarrow>
          normalize_message_for_dedup (message nd) (dedup_case_insensitive cfg)
            = normalize_message_for_dedup (e_message it) (dedup_case_insensitive cfg) \<longrightarrow>
          ts_sec nd \<le> e_ts_sec it))"
proof (rule conjI)
  show "distinct (map (\<lambda>it. normalize_message_for_dedup (e_message it) (dedup_case_insensitive cfg))
            (dual_path_retrieve ord cfg g t))"
    using retrieve_items_distinct[OF assms, of cfg g t] retrieve_key_inj[OF assms, of cfg g t]
    by (simp add: distinct_map dedup_key_def[abs_def])
next
  show "\<forall>it \<in> set (dual_path_retrieve ord cfg g t).
       normalize_message_for_dedup (e_message it) (dedup_case_insensitive cfg) \<noteq> [] \<and>
       e_log_id it \<in> set (cand_ids_of ord cfg g t) \<and>
       (\<exists>nd. get_log g (e_log_id it) = Some nd \<and> e_message it = message nd \<and> e_ts_sec it = ts_sec nd) \<and>
       (\<forall>lid \<in> set (cand_ids_of ord cfg g t). \<forall>nd. get_log g lid = Some nd \<longrightarrow>
          normalize_message_for_dedup (message nd) (dedup_case_insensitive cfg)
            = normalize_message_for_dedup (e_message it) (dedup_case_insensitive cfg) \<longrightarrow>
          ts_sec nd \<le> e_ts_sec it)"
  proof
    fix it assume "it \<in> set (dual_path_retrieve ord cfg g t)"
    from retrieve_item_best[OF assms this] obtain nd where
      n: "get_log g (e_log_id it) = Some nd" "e_message it = message nd" "e_ts_sec it = ts_sec nd"
        "dedup_key cfg (message nd) \<noteq> []" "e_log_id it \<in> set (cand_ids_of ord cfg g t)"
        "\<forall>lid' \<in> set (cand_ids_of ord cfg g t). \<forall>nd'. get_log g lid' = Some nd' \<longrightarrow>
         dedup_key cfg (message nd') = dedup_key cfg (message nd) \<longrightarrow> ts_sec nd' \<le> ts_sec nd"
      by (elim exE conjE) blast
    show "normalize_message_for_dedup (e_message it) (dedup_case_insensitive cfg) \<noteq> [] \<and>
       e_log_id it \<in> set (cand_ids_of ord cfg g t) \<and>
       (\<exists>nd. get_log g (e_log_id it) = Some nd \<and> e_message it = message nd \<and> e_ts_sec it = ts_sec nd) \<and>
       (\<forall>lid \<in> set (cand_ids_of ord cfg g t). \<forall>nd. get_log g lid = Some nd \<longrightarrow>
          normalize_message_for_dedup (message nd) (dedup_case_insensitive cfg)
            = normalize_message_for_dedup (e_message it) (dedup_case_insensitive cfg) \<longrightarrow>
          ts_sec nd \<le> e_ts_sec it)"
      using n unfolding dedup_key_def by simp
  qed
qed

theorem dual_path_retrieve_dedup_witness:
  "distinct (map (\<lambda>it. normalize_message_for_dedup (e_message it) (dedup_case_insensitive (ex_cfg 5)))
      (dual_path_retrieve remdups (ex_cfg 5) ex_graph 4)) \<and>
   list_all (\<lambda>it. normalize_message_for_dedup (e_message it) (dedup_case_insensitive (ex_cfg 5)) \<noteq> [])
      (dual_path_retrieve remdups (ex_cfg 5) ex_graph 4) \<and>
   cand_ids_of remdups (ex_cfg 5) ex_graph 4 = [3, 2, 1] \<and>
   map (\<lambda>it. (e_log_id it, e_ts_sec it)) (dual_path_retrieve remdups (ex_cfg 5) ex_graph 4)
     = [(3, 1002), (2, 1001)]"
proof -
  have ids: "map (\<lambda>it. (e_log_id it, e_ts_sec it)) (dual_path_retrieve remdups (ex_cfg 5) ex_graph 4)
     = [(3, 1002), (2, 1001)]"
    by (simp add: ex_retrieve py_take_def ex_item_def)
  show ?thesis
    using dual_path_retrieve_dedup[OF set_iteration_remdups, of "ex_cfg 5" ex_graph 4] ids ex_cands[of 5]
    by (simp add: list_all_iff)
qed

end
